theory Spec2Isabelle
  imports Main "HOL-Library.Char_ord" "HOL-Library.List_Lexorder"
begin

section \<open>Strings and object listings\<close>

text \<open>
  Object names, file names and identifiers are Python \<open>str\<close> values. A \<^typ>\<open>char\<close> stands
  for one code point below 256. On these code points \<open>str.lower()\<close> moves \<open>A\<close>..\<open>Z\<close>
  and the capital letters U+00C0..U+00DE (the multiplication sign U+00D7 apart) up by 32 and
  leaves every other code point alone.
\<close>

definition lower_char :: "char \<Rightarrow> char" where
  "lower_char c =
     (let n = (of_char c :: nat)
      in if (65 \<le> n \<and> n \<le> 90) \<or> (192 \<le> n \<and> n \<le> 222 \<and> n \<noteq> 215)
         then char_of (n + 32) else c)"

definition lower :: "string \<Rightarrow> string" where
  "lower s = map lower_char s"

text \<open>\<open>s.startswith(p)\<close>.\<close>

fun startswith :: "string \<Rightarrow> string \<Rightarrow> bool" where
  "startswith s [] = True"
| "startswith [] (p # ps) = False"
| "startswith (c # cs) (p # ps) = (c = p \<and> startswith cs ps)"

text \<open>
  \<open>s.split('.')[-1]\<close>: what follows the last dot, the whole string when it has no dot.
\<close>

definition last_dot_part :: "string \<Rightarrow> string" where
  "last_dot_part s = rev (takeWhile (\<lambda>c. c \<noteq> CHR ''.'') (rev s))"

text \<open>
  A bucket is the list of its object names. \<open>list_blobs(prefix=p, max_results=k)\<close> without a
  delimiter yields the objects whose name starts with \<open>p\<close>, at most \<open>k\<close> of them when
  \<open>max_results\<close> is given.
\<close>

type_synonym bucket = "string list"

definition list_blobs :: "bucket \<Rightarrow> string \<Rightarrow> nat option \<Rightarrow> string list" where
  "list_blobs names pre max_results =
     (let found = filter (\<lambda>n. startswith n pre) names
      in case max_results of None \<Rightarrow> found | Some k \<Rightarrow> take k found)"

subsection \<open>Exceptions\<close>

text \<open>
  Every exception the modelled code raises is a value of \<open>exn\<close>; the text is its message,
  which \<open>str(e)\<close> returns. All these classes derive from Python's \<open>Exception\<close>, which is
  what \<open>except Exception\<close> asks.
\<close>

datatype exn =
    ValueError string
  | Exception string
  | NameError string
  | TypeError string
  | IndexError string

fun str_exn :: "exn \<Rightarrow> string" where
  "str_exn (ValueError m) = m"
| "str_exn (Exception m) = m"
| "str_exn (NameError m) = m"
| "str_exn (TypeError m) = m"
| "str_exn (IndexError m) = m"

fun is_Exception :: "exn \<Rightarrow> bool" where
  "is_Exception (ValueError m) = True"
| "is_Exception (Exception m) = True"
| "is_Exception (NameError m) = True"
| "is_Exception (TypeError m) = True"
| "is_Exception (IndexError m) = True"

section \<open>Scan-and-dispatch function\<close>

text \<open>
  \<open>cloud-run-functions/baltimore-auto-annotation/baltimore_auto_annotation.py\<close>.
  \<open>IMG_FORMATS\<close> is a Python set; membership is all that is asked of it.
\<close>

definition IMG_FORMATS :: "string list" where
  "IMG_FORMATS = [''bmp'', ''dng'', ''jpeg'', ''jpg'', ''mpo'', ''png'', ''tif'', ''tiff'',
                  ''webp'', ''pfm'', ''heic'']"

definition extension :: "string \<Rightarrow> string" where
  "extension name = last_dot_part (lower name)"

text \<open>
  The loop over \<open>images_blobs\<close>, with its two flags \<open>(valid_images, at_least_one_file)\<close>
  and its \<open>break\<close> at the first unsupported extension.
\<close>

fun check_images :: "string list \<Rightarrow> bool \<times> bool \<Rightarrow> bool \<times> bool" where
  "check_images [] flags = flags"
| "check_images (blob # blobs) (valid_images, at_least_one_file) =
     (if extension blob \<notin> set IMG_FORMATS then (False, True)
      else check_images blobs (valid_images, True))"

definition date_wheel_path :: "string \<Rightarrow> string \<Rightarrow> string" where
  "date_wheel_path wheel yesterday = wheel @ ''/'' @ yesterday @ ''/''"

text \<open>
  The loop \<open>for wheel in TRASH_WHEELS\<close> of \<open>main\<close>; every \<open>continue\<close> is a recursive
  call that leaves \<open>valid_folders_for_inference\<close> as it is. A wheel is given as the text
  that the f-string makes of it.
\<close>

fun scan_wheels :: "bucket \<Rightarrow> string \<Rightarrow> string list \<Rightarrow> string list \<Rightarrow> string list" where
  "scan_wheels names yesterday [] valid_folders_for_inference = valid_folders_for_inference"
| "scan_wheels names yesterday (wheel # wheels) valid_folders_for_inference =
     (let path = date_wheel_path wheel yesterday;
          images_blobs = list_blobs names (path @ ''images/'') None;
          (valid_images, at_least_one_file) = check_images images_blobs (True, False)
      in if \<not> at_least_one_file then scan_wheels names yesterday wheels valid_folders_for_inference
         else if \<not> valid_images then scan_wheels names yesterday wheels valid_folders_for_inference
         else let auto_annotations_blobs =
                    list_blobs names (path @ ''auto-annotations/'') (Some 1)
              in if auto_annotations_blobs \<noteq> []
                 then scan_wheels names yesterday wheels valid_folders_for_inference
                 else scan_wheels names yesterday wheels (valid_folders_for_inference @ [path]))"

text \<open>
  \<open>start_inference_vm\<close> builds the metadata of the new instance: the template's items
  without any \<open>folders\<close> item, then \<open>folders\<close> (the JSON text of the folder list, kept here
  as the list it encodes) and the two credential items. \<open>main\<close> calls it only when some
  folder is eligible; \<open>None\<close> is the run that provisions nothing.
\<close>

datatype meta_value = Text "string option" | Json_list "string list"

record config =
  TRASH_WHEELS :: "string list"
  CVAT_USERNAME :: "string option"
  CVAT_PASSWORD :: "string option"
  template_items :: "(string \<times> meta_value) list"

definition start_inference_vm :: "config \<Rightarrow> string list \<Rightarrow> (string \<times> meta_value) list" where
  "start_inference_vm cfg valid_folders_for_inference =
     filter (\<lambda>item. fst item \<noteq> ''folders'') (template_items cfg)
     @ [(''folders'', Json_list valid_folders_for_inference),
        (''cvat_username'', Text (CVAT_USERNAME cfg)),
        (''cvat_password'', Text (CVAT_PASSWORD cfg))]"

definition main :: "config \<Rightarrow> bucket \<Rightarrow> string \<Rightarrow> (string \<times> meta_value) list option" where
  "main cfg names yesterday =
     (let valid_folders_for_inference = scan_wheels names yesterday (TRASH_WHEELS cfg) []
      in if length valid_folders_for_inference > 0
         then Some (start_inference_vm cfg valid_folders_for_inference)
         else None)"

text \<open>
  \<open>cloud-run-functions/baltimore_auto_annotation.py\<close>, the older copy of the same function.
  Its loop has the same three checks and then lists \<open>auto-annotations/\<close> a second time, with
  \<open>max_results=2\<close>, skipping the folder when some listed name differs from the folder's own
  name. Its metadata has no credential items.
\<close>

fun scan_wheels_old :: "bucket \<Rightarrow> string \<Rightarrow> string list \<Rightarrow> string list \<Rightarrow> string list" where
  "scan_wheels_old names yesterday [] valid_folders_for_inference = valid_folders_for_inference"
| "scan_wheels_old names yesterday (wheel # wheels) valid_folders_for_inference =
     (let path = date_wheel_path wheel yesterday;
          images_blobs = list_blobs names (path @ ''images/'') None;
          (valid_images, at_least_one_file) = check_images images_blobs (True, False)
      in if \<not> at_least_one_file
         then scan_wheels_old names yesterday wheels valid_folders_for_inference
         else if \<not> valid_images
         then scan_wheels_old names yesterday wheels valid_folders_for_inference
         else let auto_annotations_folder_path = path @ ''auto-annotations/'';
                  auto_annotations_blobs = list_blobs names auto_annotations_folder_path (Some 1)
              in if auto_annotations_blobs \<noteq> []
                 then scan_wheels_old names yesterday wheels valid_folders_for_inference
                 else let auto_annotations_blobs2 =
                            list_blobs names auto_annotations_folder_path (Some 2)
                      in if list_ex (\<lambda>blob. blob \<noteq> auto_annotations_folder_path)
                              auto_annotations_blobs2
                         then scan_wheels_old names yesterday wheels valid_folders_for_inference
                         else scan_wheels_old names yesterday wheels
                                (valid_folders_for_inference @ [path]))"

section \<open>Inference runner\<close>

text \<open>\<open>virtual-machine/inference.py\<close>.\<close>

subsection \<open>File names\<close>

text \<open>
  Here \<open>IMG_FORMATS\<close> is a tuple of suffixes, each with its dot. \<open>Path.suffix\<close> and
  \<open>Path.stem\<close> are pathlib's: with \<open>i = name.rfind('.')\<close>, the suffix is \<open>name[i:]\<close> and
  the stem \<open>name[:i]\<close> when \<open>0 < i < len(name) - 1\<close>; otherwise the suffix is empty and the
  stem is the whole name.
\<close>

definition IMG_SUFFIXES :: "string list" where
  "IMG_SUFFIXES = [''.bmp'', ''.dng'', ''.jpeg'', ''.jpg'', ''.mpo'', ''.png'', ''.tif'',
                   ''.tiff'', ''.webp'', ''.pfm'', ''.heic'']"

definition rfind_dot :: "string \<Rightarrow> nat option" where
  "rfind_dot name =
     (if CHR ''.'' \<in> set name
      then Some (length name - 1 - length (takeWhile (\<lambda>c. c \<noteq> CHR ''.'') (rev name)))
      else None)"

definition suffix :: "string \<Rightarrow> string" where
  "suffix name =
     (case rfind_dot name of
        None \<Rightarrow> []
      | Some i \<Rightarrow> if 0 < i \<and> i + 1 < length name then drop i name else [])"

definition stem :: "string \<Rightarrow> string" where
  "stem name =
     (case rfind_dot name of
        None \<Rightarrow> name
      | Some i \<Rightarrow> if 0 < i \<and> i + 1 < length name then take i name else name)"

subsection \<open>process_batch\<close>

text \<open>
  A local directory maps the names of its files to their contents; the batch directories
  are made by the runner and hold regular files only. \<open>model.predict\<close> is the detector, not
  part of this program: what it leaves in \<open>runs/detect/predict/labels\<close> is a parameter, the
  list of that directory's files, or \<open>None\<close> when the directory does not exist. The first
  loop moves every \<open>.txt\<close> file of it into \<open>output_dir\<close>, replacing a file of the same name;
  the second loop touches the label file of every image that has none.
\<close>

type_synonym directory = "string \<rightharpoonup> string"

fun move_labels :: "(string \<times> string) list \<Rightarrow> directory \<Rightarrow> directory" where
  "move_labels [] output_dir = output_dir"
| "move_labels ((name, content) # files) output_dir =
     (if suffix name = ''.txt'' then move_labels files (output_dir(name \<mapsto> content))
      else move_labels files output_dir)"

fun touch_missing :: "string list \<Rightarrow> directory \<Rightarrow> directory" where
  "touch_missing [] output_dir = output_dir"
| "touch_missing (image_file # image_files) output_dir =
     (if lower (suffix image_file) \<in> set IMG_SUFFIXES
      then let label_file_name = stem image_file @ ''.txt''
           in if output_dir label_file_name = None
              then touch_missing image_files (output_dir(label_file_name \<mapsto> []))
              else touch_missing image_files output_dir
      else touch_missing image_files output_dir)"

definition process_batch ::
  "(string \<times> string) list option \<Rightarrow> string list \<Rightarrow> directory \<Rightarrow> directory" where
  "process_batch predicted_labels input_dir output_dir =
     (let moved = (case predicted_labels of
                     None \<Rightarrow> output_dir
                   | Some files \<Rightarrow> move_labels files output_dir)
      in touch_missing input_dir moved)"

text \<open>The names of the files the detector left in its label directory.\<close>

definition predicted_names :: "(string \<times> string) list option \<Rightarrow> string set" where
  "predicted_names predicted_labels =
     (case predicted_labels of None \<Rightarrow> {} | Some files \<Rightarrow> fst ` set files)"

subsection \<open>get_latest_model_version\<close>

text \<open>
  \<open>re.search(r'model_v(\d+)/', blob.name)\<close> returns the leftmost match, and
  \<open>re_search\<close> returns its group 1. At one start position the pattern matches exactly
  when the text \<open>model_v\<close> is followed by a run of one or more digits and then a slash:
  \<open>\d+\<close> is greedy, and giving a digit back never helps, since the character after a
  shorter run is a digit and not the slash. On code points below 256, \<open>\d\<close> is \<open>0\<close>..\<open>9\<close>.
\<close>

definition is_digit :: "char \<Rightarrow> bool" where
  "is_digit c = (CHR ''0'' \<le> c \<and> c \<le> CHR ''9'')"

definition match_here :: "string \<Rightarrow> string option" where
  "match_here s =
     (if startswith s ''model_v''
      then let rest = drop 7 s;
               digits = takeWhile is_digit rest
           in if digits \<noteq> [] \<and> startswith (dropWhile is_digit rest) ''/''
              then Some digits else None
      else None)"

fun re_search :: "string \<Rightarrow> string option" where
  "re_search [] = None"
| "re_search (c # cs) =
     (case match_here (c # cs) of Some digits \<Rightarrow> Some digits | None \<Rightarrow> re_search cs)"

text \<open>\<open>int(digits)\<close> on a string of decimal digits, and \<open>str(n)\<close> for \<open>n \<ge> 0\<close>.\<close>

definition digit_value :: "char \<Rightarrow> nat" where
  "digit_value c = of_char c - 48"

definition int_of_digits :: "string \<Rightarrow> nat" where
  "int_of_digits ds = foldl (\<lambda>n c. 10 * n + digit_value c) 0 ds"

function str_nat :: "nat \<Rightarrow> string" where
  "str_nat n =
     (if n < 10 then [char_of (48 + n)]
      else str_nat (n div 10) @ [char_of (48 + n mod 10)])"
  by pat_completeness auto
termination
  by (relation "measure id") auto

declare str_nat.simps [simp del]

text \<open>The loop that fills \<open>model_versions\<close> with pairs \<open>(version, prefix)\<close>.\<close>

fun collect_versions ::
  "string \<Rightarrow> string list \<Rightarrow> (nat \<times> string) list \<Rightarrow> (nat \<times> string) list" where
  "collect_versions production_folder [] model_versions = model_versions"
| "collect_versions production_folder (blob # blobs) model_versions =
     (case re_search blob of
        Some digits \<Rightarrow>
          (let version = int_of_digits digits
           in collect_versions production_folder blobs
                (model_versions
                 @ [(version, production_folder @ ''model_v'' @ str_nat version @ ''/'')]))
      | None \<Rightarrow> collect_versions production_folder blobs model_versions)"

text \<open>
  \<open>max(model_versions, key=lambda x: x[0])\<close> on a non-empty list: the first pair whose
  version no other pair exceeds.
\<close>

fun max_by_version :: "(nat \<times> string) \<Rightarrow> (nat \<times> string) list \<Rightarrow> (nat \<times> string)" where
  "max_by_version best [] = best"
| "max_by_version best (x # xs) =
     (if fst best < fst x then max_by_version x xs else max_by_version best xs)"

definition get_latest_model_version :: "bucket \<Rightarrow> string \<Rightarrow> exn + string" where
  "get_latest_model_version names production_folder =
     (let blobs = list_blobs names production_folder None;
          model_versions = collect_versions production_folder blobs []
      in case model_versions of
           [] \<Rightarrow> Inl (ValueError ''No model versions found in the production folder.'')
         | first # others \<Rightarrow> Inr (snd (max_by_version first others)))"

text \<open>The version numbers that the blobs of a listing carry, in listing order.\<close>

definition versions :: "string list \<Rightarrow> nat list" where
  "versions blobs = map int_of_digits (List.map_filter re_search blobs)"

section \<open>Annotation-platform client\<close>

text \<open>
  \<open>CVAT/cvat_client.py\<close>. A task is the dictionary the platform returns for it; the three
  keys the client reads are its fields. The client object carries the two caches
  \<open>_tasks\<close> and \<open>_completed_tasks\<close>, both \<open>None\<close> after construction. An HTTP response
  is its status code and the fields of its body that the client reads.
\<close>

record task =
  task_id :: nat
  task_name :: string
  task_status :: string

record client =
  tasks_cache :: "task list option"
  completed_tasks_cache :: "task list option"

text \<open>
  One page of the task list: status code, \<open>results\<close>, and the page that \<open>next\<close> leads to.
  \<open>_fetch_all_tasks\<close> follows \<open>next\<close> until it is null.
\<close>

datatype page = Page nat "task list" "page option"

fun fetch_all_tasks :: "page \<Rightarrow> task list \<Rightarrow> exn + task list" where
  "fetch_all_tasks (Page status_code page_results next_page) all_tasks =
     (if status_code \<noteq> 200
      then Inl (Exception (''Failed to get tasks: '' @ str_nat status_code))
      else case next_page of
             None \<Rightarrow> Inr (all_tasks @ page_results)
           | Some p \<Rightarrow> fetch_all_tasks p (all_tasks @ page_results))"

definition get_all_tasks :: "client \<Rightarrow> page \<Rightarrow> bool \<Rightarrow> (exn + task list) \<times> client" where
  "get_all_tasks self platform_tasks force_refresh =
     (if tasks_cache self = None \<or> force_refresh
      then case fetch_all_tasks platform_tasks [] of
             Inl e \<Rightarrow> (Inl e, self)
           | Inr fetched \<Rightarrow> (Inr fetched, self\<lparr>tasks_cache := Some fetched\<rparr>)
      else case tasks_cache self of
             Some cached \<Rightarrow> (Inr cached, self)
           | None \<Rightarrow> (Inl (Exception ''No tasks found for project: 184108''), self))"

text \<open>\<open>next((t for t in tasks if t['name'] == name), None)\<close>.\<close>

definition find_by_name :: "task list \<Rightarrow> string \<Rightarrow> task option" where
  "find_by_name tasks name = List.find (\<lambda>t. task_name t = name) tasks"

text \<open>
  \<open>get_task\<close> iterates over \<open>self._tasks\<close> as it is: over \<open>None\<close> that is a \<open>TypeError\<close>.
  Its error branch formats \<open>task_name\<close>, a name bound neither in the method (whose
  parameter is \<open>name\<close>) nor in the module: evaluating it is a \<open>NameError\<close>, and the
  \<open>Exception\<close> with the descriptive message is never built. A task that is found is a
  non-empty dictionary, hence true.
\<close>

definition get_task :: "client \<Rightarrow> string \<Rightarrow> exn + task" where
  "get_task self name =
     (case tasks_cache self of
        None \<Rightarrow> Inl (TypeError ([CHR 0x27] @ ''NoneType' object is not iterable''))
      | Some tasks \<Rightarrow>
          (case find_by_name tasks name of
             None \<Rightarrow> Inl (NameError ''name 'task_name' is not defined'')
           | Some found \<Rightarrow> Inr found))"

text \<open>\<open>list.sort(key=...)\<close> is stable, as \<open>sort_key\<close> is; strings compare by code point.\<close>

definition get_completed_tasks ::
  "client \<Rightarrow> page \<Rightarrow> bool \<Rightarrow> (exn + task list) \<times> client" where
  "get_completed_tasks self platform_tasks force_refresh =
     (case get_all_tasks self platform_tasks force_refresh of
        (Inl e, self1) \<Rightarrow> (Inl e, self1)
      | (Inr tasks, self1) \<Rightarrow>
          (let completed =
                 sort_key task_name (filter (\<lambda>t. task_status t = ''completed'') tasks)
           in (Inr completed, self1\<lparr>completed_tasks_cache := Some completed\<rparr>)))"

text \<open>
  In \<open>get_completed_task\<close> the call \<open>self.get_task(name)\<close> either raises or returns a task,
  which is true: the branch raising "was not found" is never taken.
\<close>

definition get_completed_task :: "client \<Rightarrow> string \<Rightarrow> exn + task" where
  "get_completed_task self name =
     (case completed_tasks_cache self of
        None \<Rightarrow> Inl (TypeError ([CHR 0x27] @ ''NoneType' object is not iterable''))
      | Some completed \<Rightarrow>
          (case find_by_name completed name of
             Some completed_task \<Rightarrow> Inr completed_task
           | None \<Rightarrow>
               (case get_task self name of
                  Inl e \<Rightarrow> Inl e
                | Inr found \<Rightarrow>
                    Inl (Exception (''Task '' @ [CHR 0x27] @ name @ [CHR 0x27]
                                    @ '' is not completed'')))))"

subsection \<open>export_annotations\<close>

text \<open>
  What the platform answers during one call of \<open>export_annotations\<close>: the pages of the task
  list, the status code of the export request and the \<open>rq_id\<close> of its body (\<open>JNull\<close> when
  the key is absent), and the status code of the poll made at each attempt. Responses are
  taken as delivered. The PATCH that sets the storage prefix is left out: its response is
  not read.
\<close>

datatype json = JNull | JInt int | JStr string

fun truthy :: "json \<Rightarrow> bool" where
  "truthy JNull = False"
| "truthy (JInt n) = (n \<noteq> 0)"
| "truthy (JStr s) = (s \<noteq> [])"

record platform =
  task_pages :: page
  export_status :: nat
  export_rq_id :: json
  poll_status :: "nat \<Rightarrow> nat"

text \<open>
  The loop \<open>for attempt in range(60)\<close>: \<open>remaining\<close> counts the attempts left. Beside the
  result, the model returns the number of polls (status requests) made.
\<close>

fun poll_export :: "(nat \<Rightarrow> nat) \<Rightarrow> nat \<Rightarrow> nat \<Rightarrow> (exn + bool) \<times> nat" where
  "poll_export poll 0 attempt = (Inl (Exception ''Export timed out''), attempt)"
| "poll_export poll (Suc remaining) attempt =
     (let status_code = poll attempt
      in if status_code = 200 \<or> status_code = 201 then (Inr True, Suc attempt)
         else if status_code \<noteq> 202
         then (Inl (Exception (''Export failed: '' @ str_nat status_code)), Suc attempt)
         else poll_export poll remaining (Suc attempt))"

definition export_request :: "platform \<Rightarrow> (exn + bool) \<times> nat" where
  "export_request env =
     (if export_status env = 202
      then if \<not> truthy (export_rq_id env) then (Inl (Exception ''No request ID received''), 0)
           else poll_export (poll_status env) 60 0
      else if export_status env = 200 \<or> export_status env = 201 then (Inr True, 0)
      else (Inl (Exception (''Export failed: '' @ str_nat (export_status env))), 0))"

text \<open>The first lines of the \<open>try\<close> block: fill the cache when it is empty, find the task.\<close>

definition export_lookup ::
  "client \<Rightarrow> platform \<Rightarrow> string \<Rightarrow> string \<Rightarrow> (exn + task) \<times> client" where
  "export_lookup self env device_id date =
     (let refreshed =
            (if completed_tasks_cache self = None
             then case get_completed_tasks self (task_pages env) True of
                    (Inl e, self1) \<Rightarrow> (Some e, self1)
                  | (Inr completed, self1) \<Rightarrow>
                      (None, self1\<lparr>completed_tasks_cache := Some completed\<rparr>)
             else (None, self))
      in case refreshed of
           (Some e, self1) \<Rightarrow> (Inl e, self1)
         | (None, self1) \<Rightarrow> (get_completed_task self1 (device_id @ ''_'' @ date), self1))"

text \<open>The \<open>try\<close> block, and the method with its \<open>except Exception\<close> clause.\<close>

definition export_body ::
  "client \<Rightarrow> platform \<Rightarrow> string \<Rightarrow> string \<Rightarrow> ((exn + bool) \<times> nat) \<times> client" where
  "export_body self env device_id date =
     (case export_lookup self env device_id date of
        (Inl e, self1) \<Rightarrow> ((Inl e, 0), self1)
      | (Inr found, self1) \<Rightarrow> (export_request env, self1))"

definition export_annotations ::
  "client \<Rightarrow> platform \<Rightarrow> string \<Rightarrow> string \<Rightarrow> ((exn + bool) \<times> nat) \<times> client" where
  "export_annotations self env device_id date =
     (case export_body self env device_id date of
        ((Inl e, polls), self1) \<Rightarrow>
          (if is_Exception e then ((Inr False, polls), self1) else ((Inl e, polls), self1))
      | ((Inr ok, polls), self1) \<Rightarrow> ((Inr ok, polls), self1))"

subsection \<open>upload_to_cvat and its helpers\<close>

text \<open>
  \<open>_get_task_status\<close> on one response (status code and the \<open>state\<close> of its body, if
  any), and the loop \<open>while True\<close> that \<open>_upload_images\<close> and \<open>_upload_annotations\<close> run
  on it: it has no bound, so it is a partial function, \<open>None\<close> being the loop that never
  ends. \<open>poll k\<close> is the answer to the status request number \<open>k\<close>; a result \<open>Inr n\<close> tells
  that the loop ended after \<open>n\<close> requests.
\<close>

definition get_task_status :: "nat \<times> string option \<Rightarrow> exn + string" where
  "get_task_status response =
     (case response of
        (status_code, state) \<Rightarrow>
          if status_code \<noteq> 200
          then Inl (Exception (''Failed to get task status: '' @ str_nat status_code))
          else Inr (case state of None \<Rightarrow> ''Unknown'' | Some s \<Rightarrow> s))"

partial_function (option) await_task ::
  "(nat \<Rightarrow> nat \<times> string option) \<Rightarrow> string \<Rightarrow> nat \<Rightarrow> (exn + nat) option" where
  "await_task poll failure k =
     (case get_task_status (poll k) of
        Inl e \<Rightarrow> Some (Inl e)
      | Inr state \<Rightarrow>
          if state = ''Failed'' then Some (Inl (Exception failure))
          else if state = ''Finished'' then Some (Inr (Suc k))
          else await_task poll failure (Suc k))"

text \<open>
  What one call of \<open>upload_to_cvat\<close> meets. The three helpers that only copy and pack
  files (\<open>_get_device_data\<close>, \<open>_prepare_image_zip\<close>, \<open>_prepare_yolo_data\<close>) are given by
  the exception they raise, if any. The platform is given by its answers: to the request
  that creates the task (status code, text, the task of the body if it is a dictionary with
  an \<open>id\<close>, and the text Python prints for the body), to the two uploads (status code and
  text), and to the status requests that follow each upload.
\<close>

record upload_run =
  device_data :: "exn option"
  create_status :: nat
  create_text :: string
  create_data :: "task option"
  create_data_repr :: string
  image_zip :: "exn option"
  images_status :: nat
  images_text :: string
  images_poll :: "nat \<Rightarrow> nat \<times> string option"
  yolo_data :: "exn option"
  annotations_status :: nat
  annotations_text :: string
  annotations_poll :: "nat \<Rightarrow> nat \<times> string option"

definition create_task :: "upload_run \<Rightarrow> exn + task" where
  "create_task run =
     (if create_status run \<noteq> 201
      then Inl (Exception (''Failed to create task: '' @ str_nat (create_status run)
                           @ '' - '' @ create_text run))
      else case create_data run of
             None \<Rightarrow> Inl (Exception (''Invalid task creation response: ''
                                      @ create_data_repr run))
           | Some task_data \<Rightarrow> Inr task_data)"

definition upload_images :: "upload_run \<Rightarrow> (exn + nat) option" where
  "upload_images run =
     (case image_zip run of
        Some e \<Rightarrow> Some (Inl e)
      | None \<Rightarrow>
          if images_status run \<noteq> 201 \<and> images_status run \<noteq> 202
          then Some (Inl (Exception (''Failed to upload images: ''
                                     @ str_nat (images_status run) @ '' - ''
                                     @ images_text run)))
          else await_task (images_poll run) ''Task processing failed'' 0)"

definition upload_annotations :: "upload_run \<Rightarrow> (exn + nat) option" where
  "upload_annotations run =
     (if annotations_status run \<noteq> 200 \<and> annotations_status run \<noteq> 202
      then Some (Inl (Exception (''Failed to upload annotations: ''
                                 @ str_nat (annotations_status run) @ '' - ''
                                 @ annotations_text run)))
      else if annotations_status run = 202
      then await_task (annotations_poll run) ''Annotation processing failed'' 0
      else Some (Inr 0))"

text \<open>
  The \<open>try\<close> block of \<open>upload_to_cvat\<close>, and the method with its \<open>except Exception\<close>
  clause; the \<open>finally\<close> clause removes the temporary directory and decides nothing.
  \<open>None\<close> is the call that never returns.
\<close>

definition upload_body :: "upload_run \<Rightarrow> (exn + bool) option" where
  "upload_body run =
     (case device_data run of
        Some e \<Rightarrow> Some (Inl e)
      | None \<Rightarrow>
          (case create_task run of
             Inl e \<Rightarrow> Some (Inl e)
           | Inr created \<Rightarrow>
               (case upload_images run of
                  None \<Rightarrow> None
                | Some (Inl e) \<Rightarrow> Some (Inl e)
                | Some (Inr image_polls) \<Rightarrow>
                    (case yolo_data run of
                       Some e \<Rightarrow> Some (Inl e)
                     | None \<Rightarrow>
                         (case upload_annotations run of
                            None \<Rightarrow> None
                          | Some (Inl e) \<Rightarrow> Some (Inl e)
                          | Some (Inr annotation_polls) \<Rightarrow> Some (Inr True))))))"

definition upload_to_cvat :: "upload_run \<Rightarrow> (exn + bool) option" where
  "upload_to_cvat run =
     (case upload_body run of
        None \<Rightarrow> None
      | Some (Inl e) \<Rightarrow> if is_Exception e then Some (Inr False) else Some (Inl e)
      | Some (Inr ok) \<Rightarrow> Some (Inr ok))"

section \<open>Export-and-download function\<close>

text \<open>\<open>cloud-run-functions/baltimore-cvat-download/main.py\<close>.\<close>

subsection \<open>Listings with a delimiter\<close>

text \<open>
  With \<open>delimiter='/'\<close> a listing yields as blobs only the objects whose name has no slash
  after the prefix; the others are rolled up into prefixes, each ending at the first slash
  after the listing's prefix. \<open>list_blobs\<close> returns an iterator and fetches nothing: the
  iterator's \<open>prefixes\<close> attribute is the empty set when the iterator is made, and each page
  adds its prefixes to it as the page is fetched. \<open>cvat_download\<close> reads the prefixes page by
  page while it iterates; \<open>folder_exists\<close> reads the attribute of an iterator that it has
  made and not iterated.
\<close>

record blob_page =
  page_blobs :: "string list"
  page_prefixes :: "string list"

record blob_iterator =
  pages :: "blob_page list"
  prefixes :: "string list"

definition direct_blobs :: "bucket \<Rightarrow> string \<Rightarrow> string list" where
  "direct_blobs names pre =
     filter (\<lambda>n. startswith n pre \<and> CHR ''/'' \<notin> set (drop (length pre) n)) names"

definition sub_prefixes :: "bucket \<Rightarrow> string \<Rightarrow> string list" where
  "sub_prefixes names pre =
     remdups (map (\<lambda>n. pre @ takeWhile (\<lambda>c. c \<noteq> CHR ''/'') (drop (length pre) n) @ ''/'')
                  (filter (\<lambda>n. startswith n pre \<and> CHR ''/'' \<in> set (drop (length pre) n))
                          names))"

definition list_blobs_delimiter :: "bucket \<Rightarrow> string \<Rightarrow> blob_iterator" where
  "list_blobs_delimiter names pre =
     \<lparr>pages = [\<lparr>page_blobs = direct_blobs names pre, page_prefixes = sub_prefixes names pre\<rparr>],
      prefixes = []\<rparr>"

text \<open>\<open>list(iterator)\<close>: the blobs of all pages, and the iterator as the iteration leaves it.\<close>

definition iterate :: "blob_iterator \<Rightarrow> nat option \<Rightarrow> string list \<times> blob_iterator" where
  "iterate it max_results =
     (let blobs = concat (map page_blobs (pages it))
      in (case max_results of None \<Rightarrow> blobs | Some k \<Rightarrow> take k blobs,
          it\<lparr>pages := [],
             prefixes := remdups (prefixes it @ concat (map page_prefixes (pages it)))\<rparr>))"

definition folder_exists :: "bucket \<Rightarrow> string \<Rightarrow> bool" where
  "folder_exists names pre =
     (let blobs = fst (iterate (list_blobs_delimiter names pre) (Some 1));
          found_prefixes = prefixes (list_blobs_delimiter names pre)
      in length blobs > 0 \<or> length found_prefixes > 0)"

text \<open>\<open>s.split(sep)\<close> for a one-character separator.\<close>

fun split_on :: "char \<Rightarrow> string \<Rightarrow> string list" where
  "split_on sep [] = [[]]"
| "split_on sep (c # cs) =
     (if c = sep then [] # split_on sep cs
      else case split_on sep cs of
             [] \<Rightarrow> [[c]]
           | w # ws \<Rightarrow> (c # w) # ws)"

text \<open>
  The loop that fills the set \<open>date_folders\<close> with \<open>prefix.split('/')[1]\<close>. The set is kept
  as the list of its elements in the order they were first added; Python leaves the
  iteration order of a set open.
\<close>

fun collect_dates :: "string list \<Rightarrow> string list \<Rightarrow> exn + string list" where
  "collect_dates [] date_folders = Inr date_folders"
| "collect_dates (pre # pres) date_folders =
     (case split_on CHR ''/'' pre of
        first # date # rest \<Rightarrow>
          collect_dates pres (if date \<in> set date_folders then date_folders
                              else date_folders @ [date])
      | _ \<Rightarrow> Inl (IndexError ''list index out of range''))"

definition date_folders :: "bucket \<Rightarrow> string \<Rightarrow> exn + string list" where
  "date_folders names device_id =
     (let blobs = list_blobs_delimiter names (device_id @ ''/'')
      in collect_dates (concat (map page_prefixes (pages blobs))) [])"

subsection \<open>The manifest\<close>

text \<open>
  The manifest is a JSON object of JSON objects, a Python dictionary of dictionaries once
  loaded. The stored blob is \<open>None\<close> while it does not exist. \<open>now\<close> is what
  \<open>time.strftime\<close> returns at the moment of the update.
\<close>

record entry =
  status :: string
  processed_at :: string

type_synonym manifest = "string \<rightharpoonup> (string \<rightharpoonup> entry)"

definition load_processed_manifest :: "manifest option \<Rightarrow> manifest \<times> manifest option" where
  "load_processed_manifest stored =
     (case stored of
        Some content \<Rightarrow> (content, stored)
      | None \<Rightarrow> (Map.empty, Some Map.empty))"

definition update_processed_manifest ::
  "manifest option \<Rightarrow> string \<Rightarrow> string \<Rightarrow> string \<Rightarrow> string \<Rightarrow> manifest option" where
  "update_processed_manifest stored device_id date new_status now =
     (let manifest = (case stored of Some content \<Rightarrow> content | None \<Rightarrow> Map.empty);
          dates = (case manifest device_id of None \<Rightarrow> Map.empty | Some ds \<Rightarrow> ds)
      in Some (manifest(device_id \<mapsto>
                 dates(date \<mapsto> \<lparr>status = new_status, processed_at = now\<rparr>))))"

text \<open>The entry that a stored manifest holds for a device and a date.\<close>

definition manifest_entry :: "manifest option \<Rightarrow> string \<Rightarrow> string \<Rightarrow> entry option" where
  "manifest_entry stored device_id date =
     (case stored of
        None \<Rightarrow> None
      | Some manifest \<Rightarrow>
          (case manifest device_id of None \<Rightarrow> None | Some dates \<Rightarrow> dates date))"

subsection \<open>Processing one candidate folder\<close>

text \<open>
  What happens around one candidate folder is given from outside: what
  \<open>client.export_annotations\<close> does, what each round of the waiting loop finds (the list
  ends where \<open>time.time() - start_time < max_wait\<close> first fails), what
  \<open>process_zip_file\<close> does, and the time at which the manifest is written. The manifest
  itself is read and written without failure. A folder's outcome is the status written to
  the manifest, the status appended to \<open>results\<close>, and the error text if any.
\<close>

datatype export_outcome = Export_returns bool | Export_raises exn
datatype zip_outcome = Zip_processed | Zip_raises exn
datatype poll = Zip_absent | Zip_present zip_outcome | Exists_raises exn

record folder_run =
  export_result :: export_outcome
  zip_polls :: "poll list"
  write_time :: string

record processed_item =
  item_device_id :: string
  item_date :: string
  item_status :: string
  item_error :: "string option"

type_synonym outcome = "string \<times> string \<times> string option"

text \<open>The \<open>while\<close> loop with its \<open>else\<close> branch, taken when the time is up.\<close>

fun wait_for_zip :: "poll list \<Rightarrow> exn + outcome" where
  "wait_for_zip [] = Inr (''timeout_waiting_for_zip'', ''timeout_waiting_for_zip'', None)"
| "wait_for_zip (Zip_absent # later) = wait_for_zip later"
| "wait_for_zip (Zip_present Zip_processed # later) = Inr (''completed'', ''success'', None)"
| "wait_for_zip (Zip_present (Zip_raises zip_error) # later) =
     (if is_Exception zip_error
      then Inr (''failed_zip_processing'', ''zip_processing_error'', Some (str_exn zip_error))
      else Inl zip_error)"
| "wait_for_zip (Exists_raises e # later) = Inl e"

text \<open>The body of the \<open>try\<close> around one folder, and the \<open>try\<close> with its handler.\<close>

definition try_export :: "folder_run \<Rightarrow> exn + outcome" where
  "try_export run =
     (case export_result run of
        Export_raises e \<Rightarrow> Inl e
      | Export_returns export_success \<Rightarrow>
          if export_success then wait_for_zip (zip_polls run)
          else Inr (''export_failed'', ''export_failed'', None))"

definition process_candidate :: "folder_run \<Rightarrow> exn + outcome" where
  "process_candidate run =
     (case try_export run of
        Inr done \<Rightarrow> Inr done
      | Inl e \<Rightarrow> if is_Exception e then Inr (''error'', ''error'', Some (str_exn e)) else Inl e)"

subsection \<open>cvat_download\<close>

text \<open>
  The bucket is listed as it is when the function starts: processing a folder writes
  beneath that folder's own path only. The client is taken as constructed. The state of a
  run is the stored manifest, the list \<open>results\<close>, and the folders for which
  \<open>client.export_annotations\<close> has been called. The answer is the list of processed items,
  or the error text that goes with status 500.
\<close>

record download_env =
  objects :: bucket
  run_of :: "string \<Rightarrow> string \<Rightarrow> folder_run"

record run_state =
  manifest_blob :: "manifest option"
  results :: "processed_item list"
  export_calls :: "(string \<times> string) list"

definition already_completed :: "manifest \<Rightarrow> string \<Rightarrow> string \<Rightarrow> bool" where
  "already_completed processed_folders device_id date =
     (case processed_folders device_id of
        None \<Rightarrow> False
      | Some dates \<Rightarrow>
          (case dates date of None \<Rightarrow> False | Some e \<Rightarrow> status e = ''completed''))"

fun scan_dates ::
  "download_env \<Rightarrow> manifest \<Rightarrow> string \<Rightarrow> string list \<Rightarrow> run_state
   \<Rightarrow> exn option \<times> run_state" where
  "scan_dates env processed_folders device_id [] st = (None, st)"
| "scan_dates env processed_folders device_id (date # dates) st =
     (if already_completed processed_folders device_id date
      then scan_dates env processed_folders device_id dates st
      else let auto_annotations_path = device_id @ ''/'' @ date @ ''/auto-annotations/'';
               annotations_path = device_id @ ''/'' @ date @ ''/annotations/'';
               auto_annotations_exists = folder_exists (objects env) auto_annotations_path;
               annotations_exists = folder_exists (objects env) annotations_path
           in if auto_annotations_exists \<and> \<not> annotations_exists
              then let run = run_of env device_id date;
                       called = st\<lparr>export_calls := export_calls st @ [(device_id, date)]\<rparr>
                   in case process_candidate run of
                        Inl e \<Rightarrow> (Some e, called)
                      | Inr (manifest_status, result_status, err) \<Rightarrow>
                          scan_dates env processed_folders device_id dates
                            (called\<lparr>manifest_blob :=
                                      update_processed_manifest (manifest_blob called)
                                        device_id date manifest_status (write_time run),
                                    results := results called
                                      @ [\<lparr>item_device_id = device_id, item_date = date,
                                          item_status = result_status, item_error = err\<rparr>]\<rparr>)
              else scan_dates env processed_folders device_id dates st)"

fun scan_devices ::
  "download_env \<Rightarrow> manifest \<Rightarrow> string list \<Rightarrow> run_state \<Rightarrow> exn option \<times> run_state" where
  "scan_devices env processed_folders [] st = (None, st)"
| "scan_devices env processed_folders (device_id # devices) st =
     (case date_folders (objects env) device_id of
        Inl e \<Rightarrow> (Some e, st)
      | Inr dates \<Rightarrow>
          (case scan_dates env processed_folders device_id dates st of
             (Some e, st1) \<Rightarrow> (Some e, st1)
           | (None, st1) \<Rightarrow> scan_devices env processed_folders devices st1))"

datatype response = Completed "processed_item list" | Error_500 string

definition cvat_download :: "download_env \<Rightarrow> manifest option \<Rightarrow> response \<times> run_state" where
  "cvat_download env stored =
     (let (processed_folders, blob) = load_processed_manifest stored;
          (raised, st) = scan_devices env processed_folders [''1'', ''2'', ''3'']
                           \<lparr>manifest_blob = blob, results = [], export_calls = []\<rparr>
      in case raised of
           None \<Rightarrow> (Completed (results st), st)
         | Some e \<Rightarrow> (Error_500 (str_exn e), st))"

section \<open>Notions and inputs of the statements\<close>

text \<open>
  The extension of an object, in the words of the specification: what follows the last dot
  of the name (the whole name when it has no dot), in lower case. It is written here
  without the functions that the dispatch function is made of.
\<close>

fun after_last_dot :: "string \<Rightarrow> string" where
  "after_last_dot [] = []"
| "after_last_dot (c # cs) =
     (if CHR ''.'' \<in> set cs then after_last_dot cs
      else if c = CHR ''.'' then cs else c # cs)"

definition lowercased_extension :: "string \<Rightarrow> string" where
  "lowercased_extension name = lower (after_last_dot name)"

text \<open>
  A folder is eligible, in the words of the specification, when its \<open>images/\<close> listing is
  not empty, every listed object has a supported extension, and its \<open>auto-annotations/\<close>
  listing is empty.
\<close>

definition eligible :: "bucket \<Rightarrow> string \<Rightarrow> string \<Rightarrow> bool" where
  "eligible names yesterday wheel =
     (let path = date_wheel_path wheel yesterday;
          images = list_blobs names (path @ ''images/'') None
      in images \<noteq> []
         \<and> (\<forall>blob \<in> set images. lowercased_extension blob \<in> set IMG_FORMATS)
         \<and> list_blobs names (path @ ''auto-annotations/'') None = [])"

text \<open>The default of \<open>TRASH_WHEELS\<close>, and the buckets of the scenarios.\<close>

definition default_wheels :: "string list" where
  "default_wheels = [''1'', ''2'', ''3'', ''4'', ''5'']"

definition scenario_bucket :: bucket where
  "scenario_bucket = [''3/2025-1-4/images/a.jpg'', ''3/2025-1-4/images/b.jpg'']"

definition mixed_bucket :: bucket where
  "mixed_bucket = [''3/2025-1-4/images/a.jpg'', ''3/2025-1-4/images/notes.txt'']"

definition upper_case_bucket :: bucket where
  "upper_case_bucket = [''3/2025-1-4/images/A.JPG'', ''3/2025-1-4/images/b.v2.Png'']"

definition last_dot_bucket :: bucket where
  "last_dot_bucket = [''3/2025-1-4/images/a.jpg'', ''3/2025-1-4/images/b.jpg.txt'']"

definition placeholder_bucket :: bucket where
  "placeholder_bucket = [''3/2025-1-4/auto-annotations/'', ''3/2025-1-4/images/a.jpg'']"

definition model_bucket :: bucket where
  "model_bucket = [''models/production/model_v10/weights/best.pt'',
                   ''models/production/model_v9/weights/best.pt'',
                   ''models/staging/model_v11/weights/best.pt'']"

text \<open>
  An export succeeds when the completed task is found and the platform either answers the
  export request with 200 or 201, or accepts it with 202 and a request id and answers one
  of the sixty polls with 200 or 201 after answering every earlier one with 202.
\<close>

definition export_succeeds :: "client \<Rightarrow> platform \<Rightarrow> string \<Rightarrow> string \<Rightarrow> bool" where
  "export_succeeds self env device_id date =
     ((\<exists>found. fst (export_lookup self env device_id date) = Inr found)
      \<and> (export_status env = 200 \<or> export_status env = 201
         \<or> (export_status env = 202 \<and> truthy (export_rq_id env)
            \<and> (\<exists>n < 60. (\<forall>k < n. poll_status env k = 202)
                  \<and> (poll_status env n = 200 \<or> poll_status env n = 201)))))"

text \<open>A status response that keeps an upload helper waiting.\<close>

definition pending :: "nat \<times> string option \<Rightarrow> bool" where
  "pending response =
     (fst response = 200 \<and> snd response \<noteq> Some ''Failed'' \<and> snd response \<noteq> Some ''Finished'')"

text \<open>Tasks, client states and platforms of the scenarios.\<close>

definition review_task :: task where
  "review_task = \<lparr>task_id = 7, task_name = ''3_2025-1-4'', task_status = ''completed''\<rparr>"

definition open_task :: task where
  "open_task = \<lparr>task_id = 8, task_name = ''1_2025-1-4'', task_status = ''annotation''\<rparr>"

definition loaded_client :: client where
  "loaded_client = \<lparr>tasks_cache = Some [review_task, open_task],
                     completed_tasks_cache = Some [review_task]\<rparr>"

definition new_client :: client where
  "new_client = \<lparr>tasks_cache = None, completed_tasks_cache = None\<rparr>"

definition scenario_platform :: platform where
  "scenario_platform =
     \<lparr>task_pages = Page 200 [review_task] (Some (Page 200 [open_task] None)),
      export_status = 202, export_rq_id = JInt 42,
      poll_status = (\<lambda>k. if k < 5 then 202 else 201)\<rparr>"

definition failing_platform :: platform where
  "failing_platform =
     \<lparr>task_pages = Page 200 [review_task] None,
      export_status = 202, export_rq_id = JInt 42,
      poll_status = (\<lambda>k. if k < 2 then 202 else 500)\<rparr>"

definition stalled_platform :: platform where
  "stalled_platform =
     \<lparr>task_pages = Page 200 [review_task] None,
      export_status = 202, export_rq_id = JInt 42,
      poll_status = (\<lambda>k. 202)\<rparr>"

definition failed_upload :: upload_run where
  "failed_upload =
     \<lparr>device_data = None, create_status = 201, create_text = [],
      create_data = Some \<lparr>task_id = 9, task_name = ''3_2025-1-4'', task_status = ''annotation''\<rparr>,
      create_data_repr = [], image_zip = None, images_status = 202, images_text = [],
      images_poll = (\<lambda>k. if k < 2 then (200, Some ''Started'') else (200, Some ''Failed'')),
      yolo_data = None, annotations_status = 202, annotations_text = [],
      annotations_poll = (\<lambda>k. (200, Some ''Finished''))\<rparr>"

definition rejected_platform :: platform where
  "rejected_platform =
     \<lparr>task_pages = Page 200 [review_task] None,
      export_status = 404, export_rq_id = JNull,
      poll_status = (\<lambda>k. 202)\<rparr>"

text \<open>
  The test of \<open>cvat_download\<close> that makes a folder an export candidate, the entry that
  processing a candidate leaves in the manifest, the dates found under a device, and the
  status that a run leaves in the manifest for a folder.
\<close>

definition is_candidate :: "bucket \<Rightarrow> string \<Rightarrow> string \<Rightarrow> bool" where
  "is_candidate names device_id date =
     (folder_exists names (device_id @ ''/'' @ date @ ''/auto-annotations/'')
      \<and> \<not> folder_exists names (device_id @ ''/'' @ date @ ''/annotations/''))"

definition folder_entry :: "folder_run \<Rightarrow> entry option" where
  "folder_entry run =
     (case process_candidate run of
        Inr (manifest_status, result_status, err) \<Rightarrow>
          Some \<lparr>status = manifest_status, processed_at = write_time run\<rparr>
      | Inl e \<Rightarrow> None)"

definition status_of :: "response \<times> run_state \<Rightarrow> string \<Rightarrow> string \<Rightarrow> string option" where
  "status_of outcome device_id date =
     map_option status (manifest_entry (manifest_blob (snd outcome)) device_id date)"

definition dates_of :: "bucket \<Rightarrow> string \<Rightarrow> string list" where
  "dates_of names device_id =
     (case date_folders names device_id of Inr dates \<Rightarrow> dates | Inl e \<Rightarrow> [])"

text \<open>A stored manifest, and the runs and buckets of the scenarios.\<close>

definition stored_manifest :: manifest where
  "stored_manifest =
     [''2'' \<mapsto> [''2025-1-3'' \<mapsto> \<lparr>status = ''export_failed'', processed_at = ''2025-01-04 06:00:00''\<rparr>]]"

definition rejected_run :: folder_run where
  "rejected_run = \<lparr>export_result = Export_returns False, zip_polls = [],
                    write_time = ''2025-01-05 06:00:00''\<rparr>"

definition broken_zip_run :: folder_run where
  "broken_zip_run = \<lparr>export_result = Export_returns True,
                      zip_polls = [Zip_absent, Zip_present (Zip_raises (Exception ''bad zip''))],
                      write_time = ''2025-01-05 06:01:00''\<rparr>"

definition late_run :: folder_run where
  "late_run = \<lparr>export_result = Export_returns True, zip_polls = replicate 30 Zip_absent,
                write_time = ''2025-01-05 06:07:00''\<rparr>"

definition raising_run :: folder_run where
  "raising_run = \<lparr>export_result = Export_raises (TypeError ''unexpected''), zip_polls = [],
                   write_time = ''2025-01-05 06:08:00''\<rparr>"

definition good_run :: folder_run where
  "good_run = \<lparr>export_result = Export_returns True,
                zip_polls = [Zip_absent, Zip_absent, Zip_present Zip_processed],
                write_time = ''2025-01-05 06:09:00''\<rparr>"

definition review_env :: download_env where
  "review_env =
     \<lparr>objects = [''1/2025-1-4/auto-annotations/a.txt'',
                 ''2/2025-1-4/auto-annotations/a.txt'',
                 ''2/2025-1-5/auto-annotations/a.txt'',
                 ''3/2025-1-4/auto-annotations/a.txt'',
                 ''3/2025-1-5/auto-annotations/a.txt'',
                 ''3/2025-1-6/annotations/instances_default.json'',
                 ''3/2025-1-6/auto-annotations/a.txt''],
      run_of = (\<lambda>device_id date.
                  if device_id = ''1'' then rejected_run
                  else if device_id = ''2''
                       then (if date = ''2025-1-4'' then broken_zip_run else late_run)
                       else (if date = ''2025-1-4'' then raising_run else good_run))\<rparr>"

definition nested_env :: download_env where
  "nested_env =
     \<lparr>objects = [''1/2025-1-4/annotations/coco/instances_default.json'',
                 ''1/2025-1-4/auto-annotations/a.txt''],
      run_of = (\<lambda>device_id date. good_run)\<rparr>"

section \<open>Scan-and-dispatch: proofs\<close>

lemma after_last_dot_eq: "after_last_dot s = last_dot_part s"
proof (induction s)
  case Nil
  show ?case by (simp add: last_dot_part_def)
next
  case (Cons c cs)
  show ?case
  proof (cases "CHR ''.'' \<in> set cs")
    case True
    then have "takeWhile (\<lambda>c. c \<noteq> CHR ''.'') (rev cs @ [c]) = takeWhile (\<lambda>c. c \<noteq> CHR ''.'') (rev cs)"
      by (intro takeWhile_append1 [of "CHR ''.''"]) simp_all
    then show ?thesis using True Cons.IH by (simp add: last_dot_part_def)
  next
    case False
    then have "takeWhile (\<lambda>c. c \<noteq> CHR ''.'') (rev cs @ [c])
               = rev cs @ takeWhile (\<lambda>c. c \<noteq> CHR ''.'') [c]"
      by (intro takeWhile_append2) auto
    then show ?thesis using False by (simp add: last_dot_part_def)
  qed
qed

lemma of_char_lower_char:
  "(of_char (lower_char c) :: nat) =
     (if (65 \<le> (of_char c :: nat) \<and> (of_char c :: nat) \<le> 90)
         \<or> (192 \<le> (of_char c :: nat) \<and> (of_char c :: nat) \<le> 222 \<and> (of_char c :: nat) \<noteq> 215)
      then of_char c + 32 else of_char c)"
  by (simp add: lower_char_def Let_def)

lemma lower_char_dot: "(lower_char c = CHR ''.'') = (c = CHR ''.'')"
proof -
  have "(lower_char c = CHR ''.'') = ((of_char (lower_char c) :: nat) = of_char CHR ''.'')"
    by (simp only: of_char_eq_iff)
  also have "\<dots> = ((of_char c :: nat) = 46)"
    by (simp add: of_char_lower_char)
  also have "\<dots> = ((of_char c :: nat) = of_char CHR ''.'')"
    by simp
  also have "\<dots> = (c = CHR ''.'')"
    by (simp only: of_char_eq_iff)
  finally show ?thesis .
qed

lemma last_dot_part_lower: "last_dot_part (lower s) = lower (last_dot_part s)"
proof -
  have "(\<lambda>c. c \<noteq> CHR ''.'') \<circ> lower_char = (\<lambda>c. c \<noteq> CHR ''.'')"
    by (auto simp: fun_eq_iff lower_char_dot)
  then show ?thesis
    by (simp add: last_dot_part_def lower_def rev_map takeWhile_map)
qed

lemma extension_lowercased: "extension name = lowercased_extension name"
  by (simp add: extension_def lowercased_extension_def after_last_dot_eq last_dot_part_lower)

lemma check_images_flags:
  "check_images blobs (v, one) =
     (if \<forall>b \<in> set blobs. extension b \<in> set IMG_FORMATS then (v, one \<or> blobs \<noteq> [])
      else (False, True))"
  by (induction blobs arbitrary: one) auto

lemma list_blobs_limit_empty:
  "0 < k \<Longrightarrow> (list_blobs names pre (Some k) = []) = (list_blobs names pre None = [])"
  by (cases k) (auto simp: list_blobs_def Let_def take_Suc split: list.splits)

lemma scan_wheels_filter:
  "scan_wheels names y wheels acc =
     acc @ map (\<lambda>w. date_wheel_path w y) (filter (eligible names y) wheels)"
proof (induction wheels arbitrary: acc)
  case Nil
  show ?case by simp
next
  case (Cons w ws)
  have lim: "(list_blobs names (date_wheel_path w y @ ''auto-annotations/'') (Some 1) = [])
             = (list_blobs names (date_wheel_path w y @ ''auto-annotations/'') None = [])"
    by (rule list_blobs_limit_empty) simp
  show ?case
    by (simp add: Cons.IH check_images_flags eligible_def Let_def lim extension_lowercased
             del: One_nat_def)
qed

lemma scan_wheels_old_filter:
  "scan_wheels_old names y wheels acc =
     acc @ map (\<lambda>w. date_wheel_path w y) (filter (eligible names y) wheels)"
proof (induction wheels arbitrary: acc)
  case Nil
  show ?case by simp
next
  case (Cons w ws)
  have lim: "(list_blobs names (date_wheel_path w y @ ''auto-annotations/'') (Some 1) = [])
             = (list_blobs names (date_wheel_path w y @ ''auto-annotations/'') None = [])"
    by (rule list_blobs_limit_empty) simp
  have lim2: "list_blobs names (date_wheel_path w y @ ''auto-annotations/'') None = [] \<Longrightarrow>
              list_blobs names (date_wheel_path w y @ ''auto-annotations/'') (Some 2) = []"
    by (simp add: list_blobs_def)
  show ?case
    by (auto simp add: Cons.IH check_images_flags eligible_def Let_def lim lim2 list_ex_iff
               extension_lowercased
             simp del: One_nat_def)
qed

lemma date_wheel_path_inj: "date_wheel_path w y = date_wheel_path w' y \<Longrightarrow> w = w'"
  by (simp add: date_wheel_path_def)

lemma scenario_scan:
  "scan_wheels scenario_bucket ''2025-1-4'' default_wheels [] = [''3/2025-1-4/'']"
  by (simp add: scenario_bucket_def default_wheels_def date_wheel_path_def list_blobs_def
        extension_def last_dot_part_def lower_def lower_char_def IMG_FORMATS_def)

text \<open>
  C1. The folders that the scan hands to the new instance are the paths of the eligible
  wheels, in the order of the configured wheels: the path of a configured wheel is in the
  list if and only if the folder is eligible; a folder whose \<open>images/\<close> listing holds an
  object with an unsupported extension is not in the list; \<open>main\<close> provisions the instance
  with exactly this list under the key \<open>folders\<close>, and nothing when the list is empty.
  With the default wheels and a bucket that holds \<open>3/2025-1-4/images/a.jpg\<close> and
  \<open>b.jpg\<close> and nothing else, the folder list holds \<open>3/2025-1-4/\<close>. The extension is
  taken in lower case and after the last dot: a folder holding \<open>A.JPG\<close> and \<open>b.v2.Png\<close>
  is eligible, a folder holding \<open>b.jpg.txt\<close> is not.
\<close>

theorem dispatch_eligibility:
  "scan_wheels names yesterday wheels [] =
     map (\<lambda>w. date_wheel_path w yesterday) (filter (eligible names yesterday) wheels)
   \<and> (\<forall>wheel \<in> set wheels.
        (date_wheel_path wheel yesterday \<in> set (scan_wheels names yesterday wheels []))
        = eligible names yesterday wheel)
   \<and> (\<forall>wheel blob.
        blob \<in> set (list_blobs names (date_wheel_path wheel yesterday @ ''images/'') None)
          \<and> lowercased_extension blob \<notin> set IMG_FORMATS
        \<longrightarrow> date_wheel_path wheel yesterday \<notin> set (scan_wheels names yesterday wheels []))
   \<and> main cfg names yesterday =
       (if filter (eligible names yesterday) (TRASH_WHEELS cfg) = [] then None
        else Some (start_inference_vm cfg
               (map (\<lambda>w. date_wheel_path w yesterday)
                    (filter (eligible names yesterday) (TRASH_WHEELS cfg)))))
   \<and> (TRASH_WHEELS cfg = default_wheels \<longrightarrow>
        (\<exists>items folders. main cfg scenario_bucket ''2025-1-4'' = Some items
           \<and> (''folders'', Json_list folders) \<in> set items
           \<and> ''3/2025-1-4/'' \<in> set folders))
   \<and> extension ''3/2025-1-4/images/A.JPG'' = ''jpg''
   \<and> extension ''3/2025-1-4/images/b.v2.Png'' = ''png''
   \<and> extension ''3/2025-1-4/images/b.jpg.txt'' = ''txt''
   \<and> scan_wheels upper_case_bucket ''2025-1-4'' default_wheels [] = [''3/2025-1-4/'']
   \<and> scan_wheels last_dot_bucket ''2025-1-4'' default_wheels [] = []"
proof (intro conjI ballI allI impI)
  show "scan_wheels names yesterday wheels [] =
     map (\<lambda>w. date_wheel_path w yesterday) (filter (eligible names yesterday) wheels)"
    by (simp add: scan_wheels_filter)
  show "(date_wheel_path wheel yesterday \<in> set (scan_wheels names yesterday wheels []))
        = eligible names yesterday wheel" if "wheel \<in> set wheels" for wheel
    using that by (auto simp: scan_wheels_filter dest: date_wheel_path_inj)
  show "date_wheel_path wheel yesterday \<notin> set (scan_wheels names yesterday wheels [])"
    if "blob \<in> set (list_blobs names (date_wheel_path wheel yesterday @ ''images/'') None)
          \<and> lowercased_extension blob \<notin> set IMG_FORMATS" for wheel blob
  proof
    assume "date_wheel_path wheel yesterday \<in> set (scan_wheels names yesterday wheels [])"
    then obtain w where "eligible names yesterday w"
      and "date_wheel_path wheel yesterday = date_wheel_path w yesterday"
      by (auto simp: scan_wheels_filter)
    then have "eligible names yesterday wheel"
      using date_wheel_path_inj by blast
    with that show False by (auto simp: eligible_def Let_def)
  qed
  show "main cfg names yesterday =
       (if filter (eligible names yesterday) (TRASH_WHEELS cfg) = [] then None
        else Some (start_inference_vm cfg
               (map (\<lambda>w. date_wheel_path w yesterday)
                    (filter (eligible names yesterday) (TRASH_WHEELS cfg)))))"
    by (simp add: main_def scan_wheels_filter Let_def)
  show "\<exists>items folders. main cfg scenario_bucket ''2025-1-4'' = Some items
           \<and> (''folders'', Json_list folders) \<in> set items
           \<and> ''3/2025-1-4/'' \<in> set folders" if "TRASH_WHEELS cfg = default_wheels"
    using that by (simp add: main_def scenario_scan start_inference_vm_def)
  show "extension ''3/2025-1-4/images/A.JPG'' = ''jpg''"
    by code_simp
  show "extension ''3/2025-1-4/images/b.v2.Png'' = ''png''"
    by code_simp
  show "extension ''3/2025-1-4/images/b.jpg.txt'' = ''txt''"
    by code_simp
  show "scan_wheels upper_case_bucket ''2025-1-4'' default_wheels [] = [''3/2025-1-4/'']"
    by code_simp
  show "scan_wheels last_dot_bucket ''2025-1-4'' default_wheels [] = []"
    by code_simp
qed

theorem dispatch_eligibility_witness:
  "''3'' \<in> set default_wheels
   \<and> lowercased_extension ''3/2025-1-4/images/A.JPG'' = ''jpg''
   \<and> lowercased_extension ''3/2025-1-4/images/b.v2.Png'' = ''png''
   \<and> eligible upper_case_bucket ''2025-1-4'' ''3''
   \<and> date_wheel_path ''3'' ''2025-1-4''
       \<in> set (scan_wheels upper_case_bucket ''2025-1-4'' default_wheels [])
   \<and> eligible scenario_bucket ''2025-1-4'' ''3''
   \<and> date_wheel_path ''3'' ''2025-1-4''
       \<in> set (scan_wheels scenario_bucket ''2025-1-4'' default_wheels [])
   \<and> ''3/2025-1-4/images/notes.txt''
       \<in> set (list_blobs mixed_bucket (date_wheel_path ''3'' ''2025-1-4'' @ ''images/'') None)
   \<and> lowercased_extension ''3/2025-1-4/images/notes.txt'' \<notin> set IMG_FORMATS
   \<and> date_wheel_path ''3'' ''2025-1-4''
       \<notin> set (scan_wheels mixed_bucket ''2025-1-4'' default_wheels [])
   \<and> ''3/2025-1-4/images/b.jpg.txt''
       \<in> set (list_blobs last_dot_bucket (date_wheel_path ''3'' ''2025-1-4'' @ ''images/'') None)
   \<and> lowercased_extension ''3/2025-1-4/images/b.jpg.txt'' = ''txt''
   \<and> date_wheel_path ''3'' ''2025-1-4''
       \<notin> set (scan_wheels last_dot_bucket ''2025-1-4'' default_wheels [])
   \<and> main \<lparr>TRASH_WHEELS = default_wheels, CVAT_USERNAME = None, CVAT_PASSWORD = None,
            template_items = []\<rparr> scenario_bucket ''2025-1-4''
       = Some [(''folders'', Json_list [''3/2025-1-4/'']), (''cvat_username'', Text None),
               (''cvat_password'', Text None)]"
proof -
  have mem: "''3'' \<in> set default_wheels"
    by (simp add: default_wheels_def)
  have upper: "lowercased_extension ''3/2025-1-4/images/A.JPG'' = ''jpg''"
    "lowercased_extension ''3/2025-1-4/images/b.v2.Png'' = ''png''"
    by code_simp+
  have el_upper: "eligible upper_case_bucket ''2025-1-4'' ''3''"
    by (simp add: eligible_def upper_case_bucket_def date_wheel_path_def list_blobs_def upper
        IMG_FORMATS_def)
  have inst_upper: "(date_wheel_path ''3'' ''2025-1-4''
               \<in> set (scan_wheels upper_case_bucket ''2025-1-4'' default_wheels []))
             = eligible upper_case_bucket ''2025-1-4'' ''3''"
    using dispatch_eligibility [of upper_case_bucket "''2025-1-4''" default_wheels] mem
    by blast
  have lower: "lowercased_extension ''3/2025-1-4/images/a.jpg'' = ''jpg''"
    "lowercased_extension ''3/2025-1-4/images/b.jpg'' = ''jpg''"
    by code_simp+
  have el: "eligible scenario_bucket ''2025-1-4'' ''3''"
    by (simp add: eligible_def scenario_bucket_def date_wheel_path_def list_blobs_def lower
        IMG_FORMATS_def)
  have inst: "(date_wheel_path ''3'' ''2025-1-4''
               \<in> set (scan_wheels scenario_bucket ''2025-1-4'' default_wheels []))
             = eligible scenario_bucket ''2025-1-4'' ''3''"
    using dispatch_eligibility [of scenario_bucket "''2025-1-4''" default_wheels] mem by blast
  have listed: "''3/2025-1-4/images/notes.txt''
       \<in> set (list_blobs mixed_bucket (date_wheel_path ''3'' ''2025-1-4'' @ ''images/'') None)"
    by (simp add: mixed_bucket_def date_wheel_path_def list_blobs_def)
  have txt_ext: "lowercased_extension ''3/2025-1-4/images/notes.txt'' = ''txt''"
    by code_simp
  have unsupported: "lowercased_extension ''3/2025-1-4/images/notes.txt'' \<notin> set IMG_FORMATS"
    by (simp add: txt_ext IMG_FORMATS_def)
  have skipped: "date_wheel_path ''3'' ''2025-1-4''
       \<notin> set (scan_wheels mixed_bucket ''2025-1-4'' default_wheels [])"
    using dispatch_eligibility [of mixed_bucket "''2025-1-4''" default_wheels]
      listed unsupported by blast
  have listed2: "''3/2025-1-4/images/b.jpg.txt''
       \<in> set (list_blobs last_dot_bucket (date_wheel_path ''3'' ''2025-1-4'' @ ''images/'') None)"
    by (simp add: last_dot_bucket_def date_wheel_path_def list_blobs_def)
  have last_dot: "lowercased_extension ''3/2025-1-4/images/b.jpg.txt'' = ''txt''"
    by code_simp
  have unsupported2: "lowercased_extension ''3/2025-1-4/images/b.jpg.txt'' \<notin> set IMG_FORMATS"
    by (simp add: last_dot IMG_FORMATS_def)
  have skipped2: "date_wheel_path ''3'' ''2025-1-4''
       \<notin> set (scan_wheels last_dot_bucket ''2025-1-4'' default_wheels [])"
    using dispatch_eligibility [of last_dot_bucket "''2025-1-4''" default_wheels]
      listed2 unsupported2 by blast
  have started: "main \<lparr>TRASH_WHEELS = default_wheels, CVAT_USERNAME = None,
            CVAT_PASSWORD = None, template_items = []\<rparr> scenario_bucket ''2025-1-4''
       = Some [(''folders'', Json_list [''3/2025-1-4/'']), (''cvat_username'', Text None),
               (''cvat_password'', Text None)]"
    by (simp add: main_def scenario_scan start_inference_vm_def)
  show ?thesis
    using mem upper el_upper inst_upper el inst listed unsupported skipped listed2 last_dot
      skipped2 started
    by blast
qed

text \<open>
  C9, as amended. The two copies of the dispatch function compute the same folder list on
  every bucket: the older copy reaches its second check of \<open>auto-annotations/\<close> only after
  the first check has found the listing empty, and then the second listing is empty too.
\<close>

theorem dispatch_variants_agree:
  "scan_wheels_old names yesterday wheels acc = scan_wheels names yesterday wheels acc"
  by (simp add: scan_wheels_filter scan_wheels_old_filter)

text \<open>
  C9, as stated, fails on the bucket it names: where the \<open>auto-annotations/\<close> listing holds
  the placeholder object alone, both copies skip the folder.
\<close>

theorem dispatch_variants_placeholder:
  "list_blobs placeholder_bucket ''3/2025-1-4/auto-annotations/'' None
     = [''3/2025-1-4/auto-annotations/'']
   \<and> scan_wheels_old placeholder_bucket ''2025-1-4'' default_wheels []
     = scan_wheels placeholder_bucket ''2025-1-4'' default_wheels []
   \<and> scan_wheels placeholder_bucket ''2025-1-4'' default_wheels [] = []"
  by (simp add: placeholder_bucket_def default_wheels_def date_wheel_path_def list_blobs_def
        extension_def last_dot_part_def lower_def lower_char_def IMG_FORMATS_def)

section \<open>Inference runner: proofs\<close>

lemma touch_missing_lookup:
  "touch_missing imgs output_dir n =
     (case output_dir n of
        Some c \<Rightarrow> Some c
      | None \<Rightarrow>
          if n \<in> (\<lambda>f. stem f @ ''.txt'') ` {f \<in> set imgs. lower (suffix f) \<in> set IMG_SUFFIXES}
          then Some [] else None)"
proof (induction imgs arbitrary: output_dir)
  case Nil
  show ?case by (simp split: option.splits)
next
  case (Cons g gs)
  show ?case
    by (cases "output_dir n") (auto simp: Cons.IH Let_def split: option.splits)
qed

lemma move_labels_absent:
  "n \<notin> fst ` set files \<Longrightarrow> move_labels files output_dir n = output_dir n"
  by (induction files arbitrary: output_dir) auto

text \<open>
  C2. After \<open>process_batch\<close>, every file of the input directory whose suffix is a supported
  image suffix has its label file \<open>stem.txt\<close> in the output directory (a directory holds one
  file under a name); and when the detector left no file of that name and the output
  directory had none, the label file is the empty file that \<open>process_batch\<close> creates.
\<close>

theorem process_batch_labels:
  assumes "image_file \<in> set input_dir"
    and "lower (suffix image_file) \<in> set IMG_SUFFIXES"
  shows "(\<exists>content. process_batch predicted input_dir output_dir (stem image_file @ ''.txt'')
                      = Some content)
       \<and> (stem image_file @ ''.txt'' \<notin> predicted_names predicted
            \<and> output_dir (stem image_file @ ''.txt'') = None
          \<longrightarrow> process_batch predicted input_dir output_dir (stem image_file @ ''.txt'')
                = Some [])"
proof (intro conjI impI)
  let ?label = "stem image_file @ ''.txt''"
  let ?moved = "case predicted of None \<Rightarrow> output_dir
                | Some files \<Rightarrow> move_labels files output_dir"
  have named: "?label \<in> (\<lambda>f. stem f @ ''.txt'')
                 ` {f \<in> set input_dir. lower (suffix f) \<in> set IMG_SUFFIXES}"
    using assms by blast
  have run: "process_batch predicted input_dir output_dir ?label
             = (case ?moved ?label of Some c \<Rightarrow> Some c | None \<Rightarrow> Some [])"
    using named by (simp add: process_batch_def Let_def touch_missing_lookup)
  show "\<exists>content. process_batch predicted input_dir output_dir ?label = Some content"
    unfolding run by (cases "?moved ?label") simp_all
  show "process_batch predicted input_dir output_dir ?label = Some []"
    if "?label \<notin> predicted_names predicted \<and> output_dir ?label = None"
  proof -
    have "?moved ?label = None"
      using that by (cases predicted) (simp_all add: predicted_names_def move_labels_absent)
    then show ?thesis unfolding run by simp
  qed
qed

theorem process_batch_labels_witness:
  "''b.PNG'' \<in> set [''a.jpg'', ''b.PNG'']
   \<and> lower (suffix ''b.PNG'') \<in> set IMG_SUFFIXES
   \<and> stem ''b.PNG'' @ ''.txt'' \<notin> predicted_names (Some [(''a.txt'', ''0 0.5 0.5 0.1 0.1'')])
   \<and> process_batch (Some [(''a.txt'', ''0 0.5 0.5 0.1 0.1'')]) [''a.jpg'', ''b.PNG''] Map.empty
        ''b.txt'' = Some []
   \<and> process_batch (Some [(''a.txt'', ''0 0.5 0.5 0.1 0.1'')]) [''a.jpg'', ''b.PNG''] Map.empty
        ''a.txt'' = Some ''0 0.5 0.5 0.1 0.1''"
proof -
  have sfx: "lower (suffix ''b.PNG'') \<in> set IMG_SUFFIXES"
    by code_simp
  have st: "stem ''b.PNG'' = ''b''"
    by (simp add: stem_def rfind_dot_def)
  have absent: "stem ''b.PNG'' @ ''.txt''
                  \<notin> predicted_names (Some [(''a.txt'', ''0 0.5 0.5 0.1 0.1'')])"
    by (simp add: st predicted_names_def)
  have "process_batch (Some [(''a.txt'', ''0 0.5 0.5 0.1 0.1'')]) [''a.jpg'', ''b.PNG''] Map.empty
          (stem ''b.PNG'' @ ''.txt'') = Some []"
    using process_batch_labels [of "''b.PNG''" "[''a.jpg'', ''b.PNG'']"
        "Some [(''a.txt'', ''0 0.5 0.5 0.1 0.1'')]" Map.empty] sfx absent
    by simp
  moreover have "process_batch (Some [(''a.txt'', ''0 0.5 0.5 0.1 0.1'')]) [''a.jpg'', ''b.PNG'']
          Map.empty ''a.txt'' = Some ''0 0.5 0.5 0.1 0.1''"
    by code_simp
  ultimately show ?thesis using sfx absent st by simp
qed

lemma collect_versions_eq:
  "collect_versions pf blobs acc =
     acc @ map (\<lambda>v. (v, pf @ ''model_v'' @ str_nat v @ ''/'')) (versions blobs)"
  by (induction blobs arbitrary: acc)
     (auto simp: versions_def List.map_filter_simps Let_def split: option.splits)

lemma max_by_version_Max:
  "\<forall>x \<in> set (best # xs). snd x = g (fst x) \<Longrightarrow>
   max_by_version best xs = (Max (fst ` set (best # xs)), g (Max (fst ` set (best # xs))))"
proof (induction xs arbitrary: best)
  case Nil
  then show ?case by (cases best) simp
next
  case (Cons x xs)
  show ?case
  proof (cases "fst best < fst x")
    case True
    have "max_by_version x xs = (Max (fst ` set (x # xs)), g (Max (fst ` set (x # xs))))"
      using Cons.prems by (intro Cons.IH) simp
    moreover have "Max (fst ` set (best # x # xs)) = Max (fst ` set (x # xs))"
      using True by (cases "xs = []") (simp_all add: max_def)
    ultimately show ?thesis using True by simp
  next
    case False
    have "max_by_version best xs
          = (Max (fst ` set (best # xs)), g (Max (fst ` set (best # xs))))"
      using Cons.prems by (intro Cons.IH) simp
    moreover have "Max (fst ` set (best # x # xs)) = Max (fst ` set (best # xs))"
      using False by (cases "xs = []") (simp_all add: max_def insert_commute)
    ultimately show ?thesis using False by simp
  qed
qed

lemma versions_empty: "(versions blobs = []) = (\<forall>blob \<in> set blobs. re_search blob = None)"
  by (induction blobs) (auto simp: versions_def List.map_filter_simps split: option.splits)

text \<open>
  C3. When no blob under the production folder matches \<open>model_v{N}/\<close>,
  \<open>get_latest_model_version\<close> raises \<open>ValueError\<close>; otherwise it returns the prefix
  \<open>model_v{N}/\<close> under the production folder for the largest number \<open>N\<close> among the
  matching blobs, compared as numbers.
\<close>

theorem model_version_numeric_max:
  "get_latest_model_version names production_folder =
     (if \<forall>blob \<in> set (list_blobs names production_folder None). re_search blob = None
      then Inl (ValueError ''No model versions found in the production folder.'')
      else Inr (production_folder @ ''model_v''
                @ str_nat (Max (set (versions (list_blobs names production_folder None))))
                @ ''/''))"
proof -
  let ?blobs = "list_blobs names production_folder None"
  let ?g = "\<lambda>v. production_folder @ ''model_v'' @ str_nat v @ ''/''"
  have cv: "collect_versions production_folder ?blobs []
            = map (\<lambda>v. (v, ?g v)) (versions ?blobs)"
    by (simp add: collect_versions_eq)
  show ?thesis
  proof (cases "versions ?blobs")
    case Nil
    then show ?thesis
      using versions_empty [of ?blobs] by (simp add: get_latest_model_version_def cv)
  next
    case (Cons v vs)
    have "max_by_version (v, ?g v) (map (\<lambda>v. (v, ?g v)) vs)
          = (Max (fst ` set ((v, ?g v) # map (\<lambda>v. (v, ?g v)) vs)),
             ?g (Max (fst ` set ((v, ?g v) # map (\<lambda>v. (v, ?g v)) vs))))"
      by (rule max_by_version_Max) auto
    moreover have "fst ` set ((v, ?g v) # map (\<lambda>v. (v, ?g v)) vs) = set (v # vs)"
      by (auto simp: image_iff)
    ultimately have "snd (max_by_version (v, ?g v) (map (\<lambda>v. (v, ?g v)) vs))
                     = ?g (Max (set (v # vs)))"
      by simp
    moreover have "\<not> (\<forall>blob \<in> set ?blobs. re_search blob = None)"
      using versions_empty [of ?blobs] Cons by simp
    ultimately show ?thesis
      using Cons by (simp add: get_latest_model_version_def cv)
  qed
qed

lemma model_bucket_versions:
  "versions (list_blobs model_bucket ''models/production/'' None) = [10, 9]"
  by code_simp

theorem model_version_numeric_max_witness:
  "re_search ''models/production/model_v9/weights/best.pt'' = Some ''9''
   \<and> versions (list_blobs model_bucket ''models/production/'' None) = [10, 9]
   \<and> get_latest_model_version model_bucket ''models/production/''
       = Inr ''models/production/model_v10/''
   \<and> get_latest_model_version [''models/production/readme.txt''] ''models/production/''
       = Inl (ValueError ''No model versions found in the production folder.'')"
proof -
  have r9: "re_search ''models/production/model_v9/weights/best.pt'' = Some ''9''"
    by code_simp
  have some: "\<not> (\<forall>blob \<in> set (list_blobs model_bucket ''models/production/'' None).
                  re_search blob = None)"
    using r9 by (simp add: model_bucket_def list_blobs_def)
  have s10: "str_nat 10 = ''10''"
    by code_simp
  have a: "get_latest_model_version model_bucket ''models/production/''
           = Inr ''models/production/model_v10/''"
    using model_version_numeric_max [of model_bucket "''models/production/''"] some
    by (simp add: model_bucket_versions s10)
  have none: "\<forall>blob \<in> set (list_blobs [''models/production/readme.txt'']
                              ''models/production/'' None).
                 re_search blob = None"
    by code_simp
  have b: "get_latest_model_version [''models/production/readme.txt''] ''models/production/''
           = Inl (ValueError ''No model versions found in the production folder.'')"
    using model_version_numeric_max [of "[''models/production/readme.txt'']"
        "''models/production/''"] none
    by simp
  show ?thesis using r9 model_bucket_versions a b by simp
qed

section \<open>Annotation-platform client: proofs\<close>

lemma find_by_name_None: "(find_by_name tasks name = None) = (name \<notin> task_name ` set tasks)"
  by (auto simp: find_by_name_def find_None_iff)

lemma poll_export_skip:
  "\<forall>k < n. poll (attempt + k) = 202 \<Longrightarrow>
   poll_export poll (n + remaining) attempt = poll_export poll remaining (attempt + n)"
proof (induction n arbitrary: attempt)
  case 0
  show ?case by simp
next
  case (Suc n)
  have first: "poll attempt = 202"
    using Suc.prems by (metis add.right_neutral zero_less_Suc)
  have rest: "\<forall>k < n. poll (Suc attempt + k) = 202"
    using Suc.prems by (metis Suc_less_eq add_Suc_shift add_Suc_right)
  show ?case
    using Suc.IH [OF rest] first by (simp add: Let_def)
qed

lemma poll_export_terminal:
  assumes "n < 60" and "\<forall>k < n. poll k = 202"
  shows "poll_export poll 60 0 = poll_export poll (Suc (59 - n)) n"
proof -
  have "poll_export poll (n + Suc (59 - n)) 0 = poll_export poll (Suc (59 - n)) (0 + n)"
    using assms(2) by (intro poll_export_skip) simp
  moreover have "n + Suc (59 - n) = 60"
    using assms(1) by simp
  ultimately show ?thesis by simp
qed

lemma poll_export_success:
  assumes "n < 60" and "\<forall>k < n. poll k = 202" and "poll n = 200 \<or> poll n = 201"
  shows "poll_export poll 60 0 = (Inr True, Suc n)"
  using poll_export_terminal [OF assms(1,2)] assms(3) by (auto simp: Let_def)

lemma poll_export_failure:
  assumes "n < 60" and "\<forall>k < n. poll k = 202"
    and "poll n \<noteq> 200" and "poll n \<noteq> 201" and "poll n \<noteq> 202"
  shows "poll_export poll 60 0 = (Inl (Exception (''Export failed: '' @ str_nat (poll n))), Suc n)"
  using poll_export_terminal [OF assms(1,2)] assms(3-5) by (simp add: Let_def)

lemma poll_export_timeout:
  assumes "\<forall>k < 60. poll k = 202"
  shows "poll_export poll 60 0 = (Inl (Exception ''Export timed out''), 60)"
proof -
  have "poll_export poll (60 + 0) 0 = poll_export poll 0 (0 + 60)"
    using assms by (intro poll_export_skip) simp
  then show ?thesis by simp
qed

lemma export_annotations_of_body:
  "fst (export_annotations self env device_id date) =
     (case fst (export_body self env device_id date) of
        (Inl e, polls) \<Rightarrow> (Inr False, polls)
      | (Inr ok, polls) \<Rightarrow> (Inr ok, polls))"
proof -
  have "is_Exception e" for e by (cases e) simp_all
  then show ?thesis
    by (auto simp: export_annotations_def split: prod.splits sum.splits)
qed

lemma export_body_found:
  "fst (export_lookup self env device_id date) = Inr found \<Longrightarrow>
   fst (export_body self env device_id date) = export_request env"
  by (auto simp: export_body_def split: prod.splits sum.splits)

text \<open>
  C10. When the cached task list holds no task of the requested name, \<open>get_task\<close> fails
  with a \<open>NameError\<close> for \<open>task_name\<close>; when the cache has never been filled it fails
  with a \<open>TypeError\<close> from iterating over \<open>None\<close>; in no state does it raise the
  \<open>Exception\<close> with the descriptive message. The fallback of \<open>get_completed_task\<close>, for a
  name absent from both caches, fails with the same \<open>NameError\<close>.
\<close>

theorem get_task_missing:
  "(tasks_cache self = Some tasks \<and> name \<notin> task_name ` set tasks
      \<longrightarrow> get_task self name = Inl (NameError ''name 'task_name' is not defined''))
   \<and> (tasks_cache self = None
      \<longrightarrow> get_task self name = Inl (TypeError ([CHR 0x27] @ ''NoneType' object is not iterable'')))
   \<and> (\<forall>message. get_task self name \<noteq> Inl (Exception message))
   \<and> (completed_tasks_cache self = Some completed \<and> name \<notin> task_name ` set completed
        \<and> tasks_cache self = Some tasks \<and> name \<notin> task_name ` set tasks
      \<longrightarrow> get_completed_task self name = Inl (NameError ''name 'task_name' is not defined''))"
  by (auto simp: get_task_def get_completed_task_def find_by_name_None [symmetric]
      split: option.splits)

theorem get_task_missing_witness:
  "tasks_cache loaded_client = Some [review_task, open_task]
   \<and> ''2_2025-1-4'' \<notin> task_name ` set [review_task, open_task]
   \<and> get_task loaded_client ''2_2025-1-4'' = Inl (NameError ''name 'task_name' is not defined'')
   \<and> tasks_cache new_client = None
   \<and> get_task new_client ''3_2025-1-4''
       = Inl (TypeError ([CHR 0x27] @ ''NoneType' object is not iterable''))
   \<and> get_completed_task loaded_client ''2_2025-1-4''
       = Inl (NameError ''name 'task_name' is not defined'')"
proof -
  have c: "tasks_cache loaded_client = Some [review_task, open_task]"
    and cc: "completed_tasks_cache loaded_client = Some [review_task]"
    by (simp_all add: loaded_client_def)
  have absent: "''2_2025-1-4'' \<notin> task_name ` set [review_task, open_task]"
    and absent': "''2_2025-1-4'' \<notin> task_name ` set [review_task]"
    by (simp_all add: review_task_def open_task_def)
  have n: "tasks_cache new_client = None"
    by (simp add: new_client_def)
  note inst = get_task_missing [of loaded_client "[review_task, open_task]" "''2_2025-1-4''"
      "[review_task]"]
  note inst' = get_task_missing [of new_client "[]" "''3_2025-1-4''" "[]"]
  show ?thesis using inst inst' c cc absent absent' n by blast
qed

lemma await_task_skip:
  "\<forall>j < n. pending (poll (k + j)) \<Longrightarrow> await_task poll failure k = await_task poll failure (k + n)"
proof (induction n arbitrary: k)
  case 0
  show ?case by simp
next
  case (Suc n)
  have first: "pending (poll k)"
    using Suc.prems by (metis add.right_neutral zero_less_Suc)
  have rest: "\<forall>j < n. pending (poll (Suc k + j))"
    using Suc.prems by (metis Suc_less_eq add_Suc_shift add_Suc_right)
  have "await_task poll failure k = await_task poll failure (Suc k)"
    using first
    by (subst await_task.simps)
       (auto simp: pending_def get_task_status_def split: prod.splits option.splits)
  then show ?case using Suc.IH [OF rest] by simp
qed

lemma await_task_failed:
  assumes "\<forall>j < n. pending (poll j)" and "poll n = (200, Some ''Failed'')"
  shows "await_task poll failure 0 = Some (Inl (Exception failure))"
proof -
  have "await_task poll failure 0 = await_task poll failure (0 + n)"
    using assms(1) by (intro await_task_skip) simp
  also have "\<dots> = Some (Inl (Exception failure))"
    using assms(2) by (subst await_task.simps) (simp add: get_task_status_def)
  finally show ?thesis .
qed

lemma await_task_finished:
  assumes "\<forall>j < n. pending (poll j)" and "poll n = (200, Some ''Finished'')"
  shows "await_task poll failure 0 = Some (Inr (Suc n))"
proof -
  have "await_task poll failure 0 = await_task poll failure (0 + n)"
    using assms(1) by (intro await_task_skip) simp
  also have "\<dots> = Some (Inr (Suc n))"
    using assms(2) by (subst await_task.simps) (simp add: get_task_status_def)
  finally show ?thesis .
qed

lemma loaded_lookup:
  "fst (export_lookup loaded_client env ''3'' ''2025-1-4'') = Inr review_task"
  by (simp add: export_lookup_def loaded_client_def get_completed_task_def find_by_name_def
      review_task_def)

lemma is_Exception_all: "is_Exception e"
  by (cases e) simp_all

lemma poll_export_dichotomy:
  "fst (poll_export poll r a) = Inr True \<or> (\<exists>e. fst (poll_export poll r a) = Inl e)"
  by (induction r arbitrary: a) (auto simp: Let_def)

lemma poll_export_True_iff:
  "(fst (poll_export poll r a) = Inr True) =
     (\<exists>n < r. (\<forall>k < n. poll (a + k) = 202) \<and> (poll (a + n) = 200 \<or> poll (a + n) = 201))"
proof (induction r arbitrary: a)
  case 0
  show ?case by simp
next
  case (Suc r)
  show ?case
  proof (cases "poll a = 200 \<or> poll a = 201")
    case True
    have "\<exists>n < Suc r. (\<forall>k < n. poll (a + k) = 202) \<and> (poll (a + n) = 200 \<or> poll (a + n) = 201)"
      using True by (intro exI [of _ 0]) simp
    then show ?thesis using True by (auto simp: Let_def)
  next
    case False
    show ?thesis
    proof (cases "poll a = 202")
      case True
      have lhs: "fst (poll_export poll (Suc r) a) = fst (poll_export poll r (Suc a))"
        using True by (simp add: Let_def)
      have "(\<exists>n < Suc r. (\<forall>k < n. poll (a + k) = 202)
                \<and> (poll (a + n) = 200 \<or> poll (a + n) = 201))
            = (\<exists>m < r. (\<forall>k < m. poll (Suc a + k) = 202)
                \<and> (poll (Suc a + m) = 200 \<or> poll (Suc a + m) = 201))"
        (is "?L = ?R")
      proof
        assume ?L
        then obtain n where n: "n < Suc r" "\<forall>k < n. poll (a + k) = 202"
          "poll (a + n) = 200 \<or> poll (a + n) = 201" by blast
        have "n \<noteq> 0" using n(3) True by (cases n) auto
        then obtain m where m: "n = Suc m" by (cases n) auto
        have "\<forall>k < m. poll (Suc a + k) = 202"
        proof (intro allI impI)
          fix k assume "k < m"
          then have "Suc k < n" using m by simp
          then have "poll (a + Suc k) = 202" using n(2) by blast
          then show "poll (Suc a + k) = 202" by simp
        qed
        moreover have "poll (Suc a + m) = 200 \<or> poll (Suc a + m) = 201"
          using n(3) m by simp
        moreover have "m < r" using n(1) m by simp
        ultimately show ?R by blast
      next
        assume ?R
        then obtain m where m: "m < r" "\<forall>k < m. poll (Suc a + k) = 202"
          "poll (Suc a + m) = 200 \<or> poll (Suc a + m) = 201" by blast
        have "\<forall>k < Suc m. poll (a + k) = 202"
        proof (intro allI impI)
          fix k assume k: "k < Suc m"
          show "poll (a + k) = 202"
          proof (cases k)
            case 0
            then show ?thesis using True by simp
          next
            case (Suc j)
            then have "j < m" using k by simp
            then have "poll (Suc a + j) = 202" using m(2) by blast
            then show ?thesis using Suc by simp
          qed
        qed
        moreover have "poll (a + Suc m) = 200 \<or> poll (a + Suc m) = 201"
          using m(3) by simp
        moreover have "Suc m < Suc r" using m(1) by simp
        ultimately show ?L by blast
      qed
      then show ?thesis using lhs Suc.IH [of "Suc a"] by simp
    next
      case other: False
      have "\<not> (\<exists>n < Suc r. (\<forall>k < n. poll (a + k) = 202)
                \<and> (poll (a + n) = 200 \<or> poll (a + n) = 201))"
      proof
        assume "\<exists>n < Suc r. (\<forall>k < n. poll (a + k) = 202)
                \<and> (poll (a + n) = 200 \<or> poll (a + n) = 201)"
        then obtain n where n: "\<forall>k < n. poll (a + k) = 202"
          "poll (a + n) = 200 \<or> poll (a + n) = 201" by blast
        show False
        proof (cases n)
          case 0
          then show ?thesis using n(2) False by simp
        next
          case (Suc m)
          then have "poll (a + 0) = 202" using n(1) by blast
          then show ?thesis using other by simp
        qed
      qed
      then show ?thesis using False other by (simp add: Let_def)
    qed
  qed
qed

lemma export_request_result:
  "fst (export_request env) = Inr True \<or> (\<exists>e. fst (export_request env) = Inl e)"
  using poll_export_dichotomy [of "poll_status env" 60 0]
  by (auto simp: export_request_def)

lemma export_request_True_iff:
  "(fst (export_request env) = Inr True) =
     (export_status env = 200 \<or> export_status env = 201
      \<or> (export_status env = 202 \<and> truthy (export_rq_id env)
         \<and> (\<exists>n < 60. (\<forall>k < n. poll_status env k = 202)
               \<and> (poll_status env n = 200 \<or> poll_status env n = 201))))"
  using poll_export_True_iff [of "poll_status env" 60 0]
  by (auto simp: export_request_def)

lemma export_body_failed_lookup:
  "fst (export_lookup self env device_id date) = Inl e \<Longrightarrow>
   fst (export_body self env device_id date) = (Inl e, 0)"
  by (auto simp: export_body_def split: prod.splits sum.splits)

lemma export_annotations_result:
  "fst (fst (export_annotations self env device_id date))
   = Inr (export_succeeds self env device_id date)"
proof (cases "fst (export_lookup self env device_id date)")
  case (Inl e)
  then have "\<not> export_succeeds self env device_id date"
    by (simp add: export_succeeds_def)
  then show ?thesis
    using export_body_failed_lookup [OF Inl]
    by (simp add: export_annotations_of_body)
next
  case (Inr found)
  have body: "fst (export_body self env device_id date) = export_request env"
    using Inr by (rule export_body_found)
  have s: "export_succeeds self env device_id date = (fst (export_request env) = Inr True)"
    using Inr by (simp add: export_succeeds_def export_request_True_iff)
  show ?thesis
    using export_request_result [of env]
    by (cases "export_request env")
       (auto simp: export_annotations_of_body body s split: sum.splits)
qed

lemma export_body_raises:
  assumes "\<not> export_succeeds self env device_id date"
  shows "\<exists>e. fst (fst (export_body self env device_id date)) = Inl e"
proof (cases "fst (export_lookup self env device_id date)")
  case (Inl e)
  then show ?thesis using export_body_failed_lookup [OF Inl] by simp
next
  case (Inr found)
  have body: "fst (export_body self env device_id date) = export_request env"
    using Inr by (rule export_body_found)
  have "fst (export_request env) \<noteq> Inr True"
    using assms Inr by (simp add: export_succeeds_def export_request_True_iff)
  then show ?thesis using export_request_result [of env] by (simp add: body)
qed

lemma upload_never_raises: "upload_to_cvat run \<noteq> Some (Inl e)"
  by (auto simp: upload_to_cvat_def is_Exception_all split: option.splits sum.splits)

lemma upload_True_iff:
  "(upload_to_cvat run = Some (Inr True)) =
     (device_data run = None \<and> (\<exists>created. create_task run = Inr created)
      \<and> (\<exists>n. upload_images run = Some (Inr n)) \<and> yolo_data run = None
      \<and> (\<exists>n. upload_annotations run = Some (Inr n)))"
  by (auto simp: upload_to_cvat_def upload_body_def is_Exception_all
      split: option.splits sum.splits)

text \<open>
  C5, as amended. Neither \<open>export_annotations\<close> nor \<open>upload_to_cvat\<close> raises to its
  caller: every exception of its \<open>try\<close> block is caught by its own \<open>except Exception\<close>
  clause and turned into the result \<open>False\<close>. \<open>export_annotations\<close> returns \<open>True\<close> when
  the export succeeds and \<open>False\<close> in every other case, and in every other case its
  \<open>try\<close> block has raised: for a task that is not found, a rejected export request, a
  missing request id, a poll whose status is none of 200, 201 and 202 ("Export failed"), and
  sixty polls that all return 202 ("Export timed out"). \<open>upload_to_cvat\<close> returns \<open>True\<close>
  only when every step went through and \<open>False\<close> when a step raised; the upload helpers
  raise to it on an upload response with an unexpected status and on a task state
  \<open>Failed\<close> met while they wait (they wait without a time limit).
\<close>

theorem export_failure_reported_by_result:
  "fst (fst (export_annotations self env device_id date))
     = Inr (export_succeeds self env device_id date)
   \<and> (\<not> export_succeeds self env device_id date
        \<longrightarrow> (\<exists>e. fst (fst (export_body self env device_id date)) = Inl e))
   \<and> (\<forall>e. fst (export_lookup self env device_id date) = Inl e
        \<longrightarrow> fst (export_body self env device_id date) = (Inl e, 0)
            \<and> fst (export_annotations self env device_id date) = (Inr False, 0))
   \<and> (\<forall>found. fst (export_lookup self env device_id date) = Inr found
          \<and> export_status env \<noteq> 200 \<and> export_status env \<noteq> 201 \<and> export_status env \<noteq> 202
        \<longrightarrow> fst (export_body self env device_id date)
              = (Inl (Exception (''Export failed: '' @ str_nat (export_status env))), 0)
            \<and> fst (export_annotations self env device_id date) = (Inr False, 0))
   \<and> (\<forall>found. fst (export_lookup self env device_id date) = Inr found
          \<and> export_status env = 202 \<and> \<not> truthy (export_rq_id env)
        \<longrightarrow> fst (export_body self env device_id date)
              = (Inl (Exception ''No request ID received''), 0)
            \<and> fst (export_annotations self env device_id date) = (Inr False, 0))
   \<and> (\<forall>found n. fst (export_lookup self env device_id date) = Inr found
          \<and> export_status env = 202 \<and> truthy (export_rq_id env)
          \<and> n < 60 \<and> (\<forall>k < n. poll_status env k = 202)
          \<and> poll_status env n \<noteq> 200 \<and> poll_status env n \<noteq> 201 \<and> poll_status env n \<noteq> 202
        \<longrightarrow> fst (export_body self env device_id date)
              = (Inl (Exception (''Export failed: '' @ str_nat (poll_status env n))), Suc n)
            \<and> fst (export_annotations self env device_id date) = (Inr False, Suc n))
   \<and> (\<forall>found. fst (export_lookup self env device_id date) = Inr found
          \<and> export_status env = 202 \<and> truthy (export_rq_id env)
          \<and> (\<forall>k < 60. poll_status env k = 202)
        \<longrightarrow> fst (export_body self env device_id date)
              = (Inl (Exception ''Export timed out''), 60)
            \<and> fst (export_annotations self env device_id date) = (Inr False, 60))
   \<and> (\<forall>e. upload_to_cvat run \<noteq> Some (Inl e))
   \<and> (upload_to_cvat run = Some (Inr True))
       = (device_data run = None \<and> (\<exists>created. create_task run = Inr created)
          \<and> (\<exists>n. upload_images run = Some (Inr n)) \<and> yolo_data run = None
          \<and> (\<exists>n. upload_annotations run = Some (Inr n)))
   \<and> (\<forall>e. upload_body run = Some (Inl e) \<longrightarrow> upload_to_cvat run = Some (Inr False))
   \<and> (\<forall>n. image_zip run = None \<and> (images_status run = 201 \<or> images_status run = 202)
          \<and> (\<forall>j < n. pending (images_poll run j))
          \<and> images_poll run n = (200, Some ''Failed'')
        \<longrightarrow> upload_images run = Some (Inl (Exception ''Task processing failed'')))
   \<and> (image_zip run = None \<and> images_status run \<noteq> 201 \<and> images_status run \<noteq> 202
        \<longrightarrow> upload_images run
              = Some (Inl (Exception (''Failed to upload images: ''
                                      @ str_nat (images_status run) @ '' - ''
                                      @ images_text run))))
   \<and> (\<forall>n. annotations_status run = 202
          \<and> (\<forall>j < n. pending (annotations_poll run j))
          \<and> annotations_poll run n = (200, Some ''Failed'')
        \<longrightarrow> upload_annotations run = Some (Inl (Exception ''Annotation processing failed'')))
   \<and> (annotations_status run \<noteq> 200 \<and> annotations_status run \<noteq> 202
        \<longrightarrow> upload_annotations run
              = Some (Inl (Exception (''Failed to upload annotations: ''
                                      @ str_nat (annotations_status run) @ '' - ''
                                      @ annotations_text run))))
   \<and> (\<forall>e created. device_data run = None \<and> create_task run = Inr created
          \<and> upload_images run = Some (Inl e)
        \<longrightarrow> upload_body run = Some (Inl e) \<and> upload_to_cvat run = Some (Inr False))
   \<and> (\<forall>e created n. device_data run = None \<and> create_task run = Inr created
          \<and> upload_images run = Some (Inr n) \<and> yolo_data run = None
          \<and> upload_annotations run = Some (Inl e)
        \<longrightarrow> upload_body run = Some (Inl e) \<and> upload_to_cvat run = Some (Inr False))"
proof (intro conjI allI impI)
  show "fst (fst (export_annotations self env device_id date))
     = Inr (export_succeeds self env device_id date)"
    by (rule export_annotations_result)
  show "\<exists>e. fst (fst (export_body self env device_id date)) = Inl e"
    if "\<not> export_succeeds self env device_id date"
    using that by (rule export_body_raises)
next
  fix e
  assume h: "fst (export_lookup self env device_id date) = Inl e"
  show "fst (export_body self env device_id date) = (Inl e, 0)"
    using h by (rule export_body_failed_lookup)
  then show "fst (export_annotations self env device_id date) = (Inr False, 0)"
    by (simp add: export_annotations_of_body)
next
  fix found
  assume h: "fst (export_lookup self env device_id date) = Inr found
          \<and> export_status env \<noteq> 200 \<and> export_status env \<noteq> 201 \<and> export_status env \<noteq> 202"
  then show body: "fst (export_body self env device_id date)
              = (Inl (Exception (''Export failed: '' @ str_nat (export_status env))), 0)"
    by (simp add: export_body_found export_request_def)
  show "fst (export_annotations self env device_id date) = (Inr False, 0)"
    by (simp add: export_annotations_of_body body)
next
  fix found
  assume h: "fst (export_lookup self env device_id date) = Inr found
          \<and> export_status env = 202 \<and> \<not> truthy (export_rq_id env)"
  then show body: "fst (export_body self env device_id date)
              = (Inl (Exception ''No request ID received''), 0)"
    by (simp add: export_body_found export_request_def)
  show "fst (export_annotations self env device_id date) = (Inr False, 0)"
    by (simp add: export_annotations_of_body body)
next
  fix found n
  assume h: "fst (export_lookup self env device_id date) = Inr found
          \<and> export_status env = 202 \<and> truthy (export_rq_id env)
          \<and> n < 60 \<and> (\<forall>k < n. poll_status env k = 202)
          \<and> poll_status env n \<noteq> 200 \<and> poll_status env n \<noteq> 201 \<and> poll_status env n \<noteq> 202"
  then have "poll_export (poll_status env) 60 0
             = (Inl (Exception (''Export failed: '' @ str_nat (poll_status env n))), Suc n)"
    by (intro poll_export_failure) simp_all
  with h show body: "fst (export_body self env device_id date)
              = (Inl (Exception (''Export failed: '' @ str_nat (poll_status env n))), Suc n)"
    by (simp add: export_body_found export_request_def)
  show "fst (export_annotations self env device_id date) = (Inr False, Suc n)"
    by (simp add: export_annotations_of_body body)
next
  fix found
  assume h: "fst (export_lookup self env device_id date) = Inr found
          \<and> export_status env = 202 \<and> truthy (export_rq_id env)
          \<and> (\<forall>k < 60. poll_status env k = 202)"
  then have "poll_export (poll_status env) 60 0 = (Inl (Exception ''Export timed out''), 60)"
    by (intro poll_export_timeout) simp
  with h show body: "fst (export_body self env device_id date)
              = (Inl (Exception ''Export timed out''), 60)"
    by (simp add: export_body_found export_request_def)
  show "fst (export_annotations self env device_id date) = (Inr False, 60)"
    by (simp add: export_annotations_of_body body)
next
  show "upload_to_cvat run \<noteq> Some (Inl e)" for e
    by (rule upload_never_raises)
  show "(upload_to_cvat run = Some (Inr True))
       = (device_data run = None \<and> (\<exists>created. create_task run = Inr created)
          \<and> (\<exists>n. upload_images run = Some (Inr n)) \<and> yolo_data run = None
          \<and> (\<exists>n. upload_annotations run = Some (Inr n)))"
    by (rule upload_True_iff)
  show "upload_to_cvat run = Some (Inr False)" if "upload_body run = Some (Inl e)" for e
    using that by (simp add: upload_to_cvat_def is_Exception_all)
next
  fix n
  assume h: "image_zip run = None \<and> (images_status run = 201 \<or> images_status run = 202)
          \<and> (\<forall>j < n. pending (images_poll run j))
          \<and> images_poll run n = (200, Some ''Failed'')"
  then have "await_task (images_poll run) ''Task processing failed'' 0
             = Some (Inl (Exception ''Task processing failed''))"
    by (intro await_task_failed [of n]) simp_all
  with h show "upload_images run = Some (Inl (Exception ''Task processing failed''))"
    by (auto simp: upload_images_def)
next
  assume "image_zip run = None \<and> images_status run \<noteq> 201 \<and> images_status run \<noteq> 202"
  then show "upload_images run
              = Some (Inl (Exception (''Failed to upload images: ''
                                      @ str_nat (images_status run) @ '' - ''
                                      @ images_text run)))"
    by (simp add: upload_images_def)
next
  fix n
  assume h: "annotations_status run = 202
          \<and> (\<forall>j < n. pending (annotations_poll run j))
          \<and> annotations_poll run n = (200, Some ''Failed'')"
  then have "await_task (annotations_poll run) ''Annotation processing failed'' 0
             = Some (Inl (Exception ''Annotation processing failed''))"
    by (intro await_task_failed [of n]) simp_all
  with h show "upload_annotations run = Some (Inl (Exception ''Annotation processing failed''))"
    by (simp add: upload_annotations_def)
next
  assume "annotations_status run \<noteq> 200 \<and> annotations_status run \<noteq> 202"
  then show "upload_annotations run
              = Some (Inl (Exception (''Failed to upload annotations: ''
                                      @ str_nat (annotations_status run) @ '' - ''
                                      @ annotations_text run)))"
    by (simp add: upload_annotations_def)
next
  fix e created
  assume h: "device_data run = None \<and> create_task run = Inr created
          \<and> upload_images run = Some (Inl e)"
  then show body: "upload_body run = Some (Inl e)"
    by (simp add: upload_body_def)
  show "upload_to_cvat run = Some (Inr False)"
    by (simp add: upload_to_cvat_def body is_Exception_all)
next
  fix e created n
  assume h: "device_data run = None \<and> create_task run = Inr created
          \<and> upload_images run = Some (Inr n) \<and> yolo_data run = None
          \<and> upload_annotations run = Some (Inl e)"
  then show body: "upload_body run = Some (Inl e)"
    by (simp add: upload_body_def)
  show "upload_to_cvat run = Some (Inr False)"
    by (simp add: upload_to_cvat_def body is_Exception_all)
qed

lemma failed_upload_images:
  "upload_images failed_upload = Some (Inl (Exception ''Task processing failed''))"
proof -
  have "await_task (images_poll failed_upload) ''Task processing failed'' 0
        = Some (Inl (Exception ''Task processing failed''))"
    by (rule await_task_failed [of 2]) (simp_all add: failed_upload_def pending_def)
  then show ?thesis by (simp add: upload_images_def failed_upload_def)
qed

theorem export_failure_reported_by_result_witness:
  "fst (export_lookup loaded_client rejected_platform ''3'' ''2025-1-4'') = Inr review_task
   \<and> export_status rejected_platform = 404
   \<and> fst (export_body loaded_client rejected_platform ''3'' ''2025-1-4'')
       = (Inl (Exception ''Export failed: 404''), 0)
   \<and> fst (export_annotations loaded_client rejected_platform ''3'' ''2025-1-4'') = (Inr False, 0)
   \<and> fst (export_lookup loaded_client failing_platform ''3'' ''2025-1-4'') = Inr review_task
   \<and> fst (export_body loaded_client failing_platform ''3'' ''2025-1-4'')
       = (Inl (Exception ''Export failed: 500''), 3)
   \<and> fst (export_annotations loaded_client failing_platform ''3'' ''2025-1-4'') = (Inr False, 3)
   \<and> fst (export_lookup loaded_client stalled_platform ''3'' ''2025-1-4'') = Inr review_task
   \<and> fst (export_annotations loaded_client stalled_platform ''3'' ''2025-1-4'') = (Inr False, 60)
   \<and> device_data failed_upload = None
   \<and> create_task failed_upload
       = Inr \<lparr>task_id = 9, task_name = ''3_2025-1-4'', task_status = ''annotation''\<rparr>
   \<and> pending (images_poll failed_upload 0)
   \<and> pending (images_poll failed_upload 1)
   \<and> images_poll failed_upload 2 = (200, Some ''Failed'')
   \<and> upload_images failed_upload = Some (Inl (Exception ''Task processing failed''))
   \<and> upload_body failed_upload = Some (Inl (Exception ''Task processing failed''))
   \<and> upload_to_cvat failed_upload = Some (Inr False)"
proof -
  have r: "export_status rejected_platform = 404"
    by (simp add: rejected_platform_def)
  have s404: "str_nat 404 = ''404''"
    by code_simp
  have f: "export_status failing_platform = 202 \<and> truthy (export_rq_id failing_platform)
           \<and> (2::nat) < 60 \<and> (\<forall>k < 2. poll_status failing_platform k = 202)
           \<and> poll_status failing_platform 2 \<noteq> 200 \<and> poll_status failing_platform 2 \<noteq> 201
           \<and> poll_status failing_platform 2 \<noteq> 202"
    by (simp add: failing_platform_def)
  have p: "poll_status failing_platform 2 = 500"
    by (simp add: failing_platform_def)
  have s500: "str_nat 500 = ''500''"
    by code_simp
  have s: "export_status stalled_platform = 202 \<and> truthy (export_rq_id stalled_platform)
           \<and> (\<forall>k < 60. poll_status stalled_platform k = 202)"
    by (simp add: stalled_platform_def)
  note whole = export_failure_reported_by_result
  note rejected = whole
      [of loaded_client rejected_platform "''3''" "''2025-1-4''" failed_upload,
       THEN conjunct2, THEN conjunct2, THEN conjunct2, THEN conjunct1, rule_format,
       of review_task]
  note failing = whole
      [of loaded_client failing_platform "''3''" "''2025-1-4''" failed_upload,
       THEN conjunct2, THEN conjunct2, THEN conjunct2, THEN conjunct2, THEN conjunct2,
       THEN conjunct1, rule_format, of review_task 2]
  note stalled = whole
      [of loaded_client stalled_platform "''3''" "''2025-1-4''" failed_upload,
       THEN conjunct2, THEN conjunct2, THEN conjunct2, THEN conjunct2, THEN conjunct2,
       THEN conjunct2, THEN conjunct1, rule_format, of review_task]
  have exports: "fst (export_body loaded_client rejected_platform ''3'' ''2025-1-4'')
       = (Inl (Exception ''Export failed: 404''), 0)
   \<and> fst (export_annotations loaded_client rejected_platform ''3'' ''2025-1-4'') = (Inr False, 0)
   \<and> fst (export_body loaded_client failing_platform ''3'' ''2025-1-4'')
       = (Inl (Exception ''Export failed: 500''), 3)
   \<and> fst (export_annotations loaded_client failing_platform ''3'' ''2025-1-4'') = (Inr False, 3)
   \<and> fst (export_annotations loaded_client stalled_platform ''3'' ''2025-1-4'') = (Inr False, 60)"
    using rejected failing stalled f s r loaded_lookup [of rejected_platform]
      loaded_lookup [of failing_platform] loaded_lookup [of stalled_platform]
    by (simp add: p s500 s404)
  have dd: "device_data failed_upload = None"
    by (simp add: failed_upload_def)
  have ct: "create_task failed_upload
       = Inr \<lparr>task_id = 9, task_name = ''3_2025-1-4'', task_status = ''annotation''\<rparr>"
    by (simp add: create_task_def failed_upload_def)
  have polls: "pending (images_poll failed_upload 0)" "pending (images_poll failed_upload 1)"
    "images_poll failed_upload 2 = (200, Some ''Failed'')"
    by (simp_all add: failed_upload_def pending_def)
  have zip: "image_zip failed_upload = None \<and>
      (images_status failed_upload = 201 \<or> images_status failed_upload = 202)"
    by (simp add: failed_upload_def)
  have waiting: "\<forall>j < 2. pending (images_poll failed_upload j)"
    using polls(1,2) by (auto simp: less_Suc_eq numeral_2_eq_2)
  have images: "upload_images failed_upload
                = Some (Inl (Exception ''Task processing failed''))"
    using whole [of loaded_client rejected_platform "''3''" "''2025-1-4''" failed_upload]
      zip waiting polls(3)
    by blast
  have upload: "upload_body failed_upload = Some (Inl (Exception ''Task processing failed''))
      \<and> upload_to_cvat failed_upload = Some (Inr False)"
    using whole [of loaded_client rejected_platform "''3''" "''2025-1-4''" failed_upload]
      dd ct images
    by blast
  show ?thesis
    using exports r loaded_lookup [of rejected_platform] loaded_lookup [of failing_platform]
      loaded_lookup [of stalled_platform] dd ct polls images upload
    by simp
qed

text \<open>
  C5, as stated, fails: with a failed status at the third poll, with sixty polls in
  progress and with a rejected export request, the \<open>try\<close> block raises and
  \<open>export_annotations\<close> returns \<open>False\<close>; with a task state \<open>Failed\<close> after the upload of
  the images, the helper raises and \<open>upload_to_cvat\<close> returns \<open>False\<close>.
\<close>

theorem export_failure_not_raised:
  "fst (export_body new_client failing_platform ''3'' ''2025-1-4'')
     = (Inl (Exception ''Export failed: 500''), 3)
   \<and> fst (export_annotations new_client failing_platform ''3'' ''2025-1-4'') = (Inr False, 3)
   \<and> fst (export_body new_client stalled_platform ''3'' ''2025-1-4'')
     = (Inl (Exception ''Export timed out''), 60)
   \<and> fst (export_annotations new_client stalled_platform ''3'' ''2025-1-4'') = (Inr False, 60)
   \<and> fst (export_body new_client rejected_platform ''3'' ''2025-1-4'')
     = (Inl (Exception ''Export failed: 404''), 0)
   \<and> fst (export_annotations new_client rejected_platform ''3'' ''2025-1-4'') = (Inr False, 0)
   \<and> upload_images failed_upload = Some (Inl (Exception ''Task processing failed''))
   \<and> upload_to_cvat failed_upload = Some (Inr False)"
proof -
  have exports: "fst (export_body new_client failing_platform ''3'' ''2025-1-4'')
     = (Inl (Exception ''Export failed: 500''), 3)
   \<and> fst (export_annotations new_client failing_platform ''3'' ''2025-1-4'') = (Inr False, 3)
   \<and> fst (export_body new_client stalled_platform ''3'' ''2025-1-4'')
     = (Inl (Exception ''Export timed out''), 60)
   \<and> fst (export_annotations new_client stalled_platform ''3'' ''2025-1-4'') = (Inr False, 60)
   \<and> fst (export_body new_client rejected_platform ''3'' ''2025-1-4'')
     = (Inl (Exception ''Export failed: 404''), 0)
   \<and> fst (export_annotations new_client rejected_platform ''3'' ''2025-1-4'') = (Inr False, 0)"
    by code_simp
  have "upload_to_cvat failed_upload = Some (Inr False)"
    using failed_upload_images
    by (simp add: upload_to_cvat_def upload_body_def create_task_def failed_upload_def)
  then show ?thesis using exports failed_upload_images by blast
qed


text \<open>
  C6. After an export request answered with 202 and a request id, the first poll whose
  status is not 202 decides: 200 or 201 makes \<open>export_annotations\<close> return \<open>True\<close>, any
  other status makes it return \<open>False\<close>, in both cases right after that poll and after no
  earlier one. With \<open>rq_id = 42\<close>, five polls returning 202 and a sixth returning 201,
  the result is \<open>True\<close> after six polls.
\<close>

theorem export_poll_outcomes:
  assumes "fst (export_lookup self env device_id date) = Inr found"
    and "export_status env = 202"
  shows "(\<forall>n. truthy (export_rq_id env) \<and> n < 60 \<and> (\<forall>k < n. poll_status env k = 202)
              \<and> (poll_status env n = 200 \<or> poll_status env n = 201)
            \<longrightarrow> fst (export_annotations self env device_id date) = (Inr True, Suc n))
       \<and> (\<forall>n. truthy (export_rq_id env) \<and> n < 60 \<and> (\<forall>k < n. poll_status env k = 202)
              \<and> poll_status env n \<noteq> 200 \<and> poll_status env n \<noteq> 201
              \<and> poll_status env n \<noteq> 202
            \<longrightarrow> fst (export_annotations self env device_id date) = (Inr False, Suc n))
       \<and> (export_rq_id env = JInt 42 \<and> (\<forall>k < 5. poll_status env k = 202)
              \<and> poll_status env 5 = 201
            \<longrightarrow> fst (export_annotations self env device_id date) = (Inr True, 6))"
proof (intro conjI allI impI)
  fix n
  assume h: "truthy (export_rq_id env) \<and> n < 60 \<and> (\<forall>k < n. poll_status env k = 202)
              \<and> (poll_status env n = 200 \<or> poll_status env n = 201)"
  then have "poll_export (poll_status env) 60 0 = (Inr True, Suc n)"
    by (intro poll_export_success) simp_all
  with h assms show "fst (export_annotations self env device_id date) = (Inr True, Suc n)"
    by (simp add: export_annotations_of_body export_body_found export_request_def)
next
  fix n
  assume h: "truthy (export_rq_id env) \<and> n < 60 \<and> (\<forall>k < n. poll_status env k = 202)
              \<and> poll_status env n \<noteq> 200 \<and> poll_status env n \<noteq> 201
              \<and> poll_status env n \<noteq> 202"
  then have "poll_export (poll_status env) 60 0
             = (Inl (Exception (''Export failed: '' @ str_nat (poll_status env n))), Suc n)"
    by (intro poll_export_failure) simp_all
  with h assms show "fst (export_annotations self env device_id date) = (Inr False, Suc n)"
    by (simp add: export_annotations_of_body export_body_found export_request_def)
next
  assume h: "export_rq_id env = JInt 42 \<and> (\<forall>k < 5. poll_status env k = 202)
              \<and> poll_status env 5 = 201"
  then have "poll_export (poll_status env) 60 0 = (Inr True, Suc 5)"
    by (intro poll_export_success) simp_all
  with h assms show "fst (export_annotations self env device_id date) = (Inr True, 6)"
    by (simp add: export_annotations_of_body export_body_found export_request_def)
qed

theorem export_poll_outcomes_witness:
  "fst (export_lookup loaded_client scenario_platform ''3'' ''2025-1-4'') = Inr review_task
   \<and> export_status scenario_platform = 202
   \<and> export_rq_id scenario_platform = JInt 42
   \<and> map (poll_status scenario_platform) [0, 1, 2, 3, 4] = [202, 202, 202, 202, 202]
   \<and> poll_status scenario_platform 5 = 201
   \<and> fst (export_annotations loaded_client scenario_platform ''3'' ''2025-1-4'') = (Inr True, 6)"
proof -
  have h: "export_status scenario_platform = 202"
    "export_rq_id scenario_platform = JInt 42"
    "\<forall>k < 5. poll_status scenario_platform k = 202"
    "poll_status scenario_platform 5 = 201"
    by (simp_all add: scenario_platform_def)
  note inst = export_poll_outcomes
      [OF loaded_lookup [of scenario_platform] h(1), THEN conjunct2, THEN conjunct2]
  have firsts: "map (poll_status scenario_platform) [0, 1, 2, 3, 4]
                  = [202, 202, 202, 202, 202]"
    by (simp add: scenario_platform_def)
  show ?thesis using inst h firsts loaded_lookup [of scenario_platform] by blast
qed

section \<open>Export-and-download: proofs\<close>

lemma manifest_entry_update:
  "manifest_entry (update_processed_manifest stored d t s now) d' t' =
     (if d' = d \<and> t' = t then Some \<lparr>status = s, processed_at = now\<rparr>
      else manifest_entry stored d' t')"
  by (auto simp: manifest_entry_def update_processed_manifest_def Let_def split: option.splits)

lemma update_twice:
  "update_processed_manifest (update_processed_manifest stored d t s1 n1) d t s2 n2
   = update_processed_manifest stored d t s2 n2"
  by (simp add: update_processed_manifest_def Let_def split: option.splits)

text \<open>
  C7. Writing \<open>completed\<close> twice for one device and date leaves the manifest that the
  second write alone would leave: the entry of that device and date (a dictionary holds one
  value under a key) has status \<open>completed\<close> and the time of the later write, and the entry
  of every other device or date is what it was before the two writes, present or absent.
\<close>

theorem manifest_update_idempotent:
  "update_processed_manifest
     (update_processed_manifest stored device_id date ''completed'' earlier)
     device_id date ''completed'' later
   = update_processed_manifest stored device_id date ''completed'' later
   \<and> manifest_entry
       (update_processed_manifest
          (update_processed_manifest stored device_id date ''completed'' earlier)
          device_id date ''completed'' later) device_id date
     = Some \<lparr>status = ''completed'', processed_at = later\<rparr>
   \<and> (\<forall>other_device other_date.
        (other_device, other_date) \<noteq> (device_id, date) \<longrightarrow>
        manifest_entry
          (update_processed_manifest
             (update_processed_manifest stored device_id date ''completed'' earlier)
             device_id date ''completed'' later) other_device other_date
        = manifest_entry stored other_device other_date)"
  by (simp add: update_twice manifest_entry_update)

theorem manifest_update_idempotent_witness:
  "(''2'', ''2025-1-3'') \<noteq> (''3'', ''2025-1-4'')
   \<and> manifest_entry
       (update_processed_manifest
          (update_processed_manifest (Some stored_manifest) ''3'' ''2025-1-4'' ''completed''
             ''2025-01-05 06:00:00'')
          ''3'' ''2025-1-4'' ''completed'' ''2025-01-05 06:10:00'') ''3'' ''2025-1-4''
     = Some \<lparr>status = ''completed'', processed_at = ''2025-01-05 06:10:00''\<rparr>
   \<and> manifest_entry
       (update_processed_manifest
          (update_processed_manifest (Some stored_manifest) ''3'' ''2025-1-4'' ''completed''
             ''2025-01-05 06:00:00'')
          ''3'' ''2025-1-4'' ''completed'' ''2025-01-05 06:10:00'') ''2'' ''2025-1-3''
     = Some \<lparr>status = ''export_failed'', processed_at = ''2025-01-04 06:00:00''\<rparr>"
proof -
  have other: "(''2'', ''2025-1-3'') \<noteq> (''3'', ''2025-1-4'')"
    by simp
  have before: "manifest_entry (Some stored_manifest) ''2'' ''2025-1-3''
                = Some \<lparr>status = ''export_failed'', processed_at = ''2025-01-04 06:00:00''\<rparr>"
    by (simp add: manifest_entry_def stored_manifest_def)
  note inst = manifest_update_idempotent [of "Some stored_manifest" "''3''" "''2025-1-4''"
      "''2025-01-05 06:00:00''" "''2025-01-05 06:10:00''"]
  show ?thesis using inst other before by metis
qed

lemma process_candidate_total: "\<exists>m r e. process_candidate run = Inr (m, r, e)"
  by (cases "try_export run") (auto simp: process_candidate_def is_Exception_all)

lemma wait_for_zip_absent: "wait_for_zip (replicate k Zip_absent @ later) = wait_for_zip later"
  by (induction k) simp_all

lemma scan_dates_entries:
  assumes "distinct dates"
  shows "\<exists>st'. scan_dates env processed device_id dates st = (None, st')
     \<and> (\<forall>d t. manifest_entry (manifest_blob st') d t =
           (if d = device_id \<and> t \<in> set dates \<and> \<not> already_completed processed device_id t
                \<and> is_candidate (objects env) device_id t
            then folder_entry (run_of env device_id t)
            else manifest_entry (manifest_blob st) d t))
     \<and> export_calls st' = export_calls st
          @ map (Pair device_id)
              (filter (\<lambda>t. \<not> already_completed processed device_id t
                             \<and> is_candidate (objects env) device_id t) dates)"
  using assms
proof (induction dates arbitrary: st)
  case Nil
  show ?case by simp
next
  case (Cons date dates)
  have fresh: "date \<notin> set dates" and rest: "distinct dates"
    using Cons.prems by simp_all
  show ?case
  proof (cases "\<not> already_completed processed device_id date
                \<and> is_candidate (objects env) device_id date")
    case False
    obtain st' where step: "scan_dates env processed device_id dates st = (None, st')"
      and entries: "\<forall>d t. manifest_entry (manifest_blob st') d t =
           (if d = device_id \<and> t \<in> set dates \<and> \<not> already_completed processed device_id t
                \<and> is_candidate (objects env) device_id t
            then folder_entry (run_of env device_id t)
            else manifest_entry (manifest_blob st) d t)"
      and calls: "export_calls st' = export_calls st
          @ map (Pair device_id)
              (filter (\<lambda>t. \<not> already_completed processed device_id t
                             \<and> is_candidate (objects env) device_id t) dates)"
      using Cons.IH [OF rest, of st] by blast
    have "scan_dates env processed device_id (date # dates) st = (None, st')"
      using False step by (auto simp: is_candidate_def Let_def)
    moreover have "\<forall>d t. manifest_entry (manifest_blob st') d t =
           (if d = device_id \<and> t \<in> set (date # dates)
                \<and> \<not> already_completed processed device_id t
                \<and> is_candidate (objects env) device_id t
            then folder_entry (run_of env device_id t)
            else manifest_entry (manifest_blob st) d t)"
      using False entries by auto
    ultimately show ?thesis using calls False by auto
  next
    case True
    obtain m r e where pc: "process_candidate (run_of env device_id date) = Inr (m, r, e)"
      using process_candidate_total by blast
    let ?called = "st\<lparr>export_calls := export_calls st @ [(device_id, date)]\<rparr>"
    let ?next = "?called\<lparr>manifest_blob :=
                    update_processed_manifest (manifest_blob ?called) device_id date m
                      (write_time (run_of env device_id date)),
                  results := results ?called
                    @ [\<lparr>item_device_id = device_id, item_date = date,
                        item_status = r, item_error = e\<rparr>]\<rparr>"
    obtain st' where step: "scan_dates env processed device_id dates ?next = (None, st')"
      and entries: "\<forall>d t. manifest_entry (manifest_blob st') d t =
           (if d = device_id \<and> t \<in> set dates \<and> \<not> already_completed processed device_id t
                \<and> is_candidate (objects env) device_id t
            then folder_entry (run_of env device_id t)
            else manifest_entry (manifest_blob ?next) d t)"
      and calls: "export_calls st' = export_calls ?next
          @ map (Pair device_id)
              (filter (\<lambda>t. \<not> already_completed processed device_id t
                             \<and> is_candidate (objects env) device_id t) dates)"
      using Cons.IH [OF rest, of ?next] by blast
    have run: "scan_dates env processed device_id (date # dates) st = (None, st')"
      using True step pc by (simp add: is_candidate_def Let_def)
    have fe: "folder_entry (run_of env device_id date)
              = Some \<lparr>status = m, processed_at = write_time (run_of env device_id date)\<rparr>"
      by (simp add: folder_entry_def pc)
    have "\<forall>d t. manifest_entry (manifest_blob st') d t =
           (if d = device_id \<and> t \<in> set (date # dates)
                \<and> \<not> already_completed processed device_id t
                \<and> is_candidate (objects env) device_id t
            then folder_entry (run_of env device_id t)
            else manifest_entry (manifest_blob st) d t)"
      using entries True fresh fe by (auto simp: manifest_entry_update)
    moreover have "export_calls st' = export_calls st
          @ map (Pair device_id)
              (filter (\<lambda>t. \<not> already_completed processed device_id t
                             \<and> is_candidate (objects env) device_id t) (date # dates))"
      using calls True by simp
    ultimately show ?thesis using run by blast
  qed
qed

lemma split_on_nonempty: "split_on sep s \<noteq> []"
  by (induction s) (auto split: list.splits)

lemma split_on_two: "\<exists>x y zs. split_on sep (a @ sep # rest) = x # y # zs"
proof (induction a)
  case Nil
  obtain w ws where "split_on sep rest = w # ws"
    using split_on_nonempty [of sep rest] by (cases "split_on sep rest") auto
  then show ?case by simp
next
  case (Cons c a)
  then obtain x y zs where "split_on sep (a @ sep # rest) = x # y # zs"
    by blast
  then show ?case by simp
qed

lemma collect_dates_total:
  assumes "\<forall>p \<in> set pres. \<exists>x y zs. split_on CHR ''/'' p = x # y # zs"
    and "distinct acc"
  shows "\<exists>ds. collect_dates pres acc = Inr ds \<and> distinct ds"
  using assms
proof (induction pres arbitrary: acc)
  case Nil
  then show ?case by simp
next
  case (Cons p ps)
  obtain x y zs where sp: "split_on CHR ''/'' p = x # y # zs"
    using Cons.prems(1) by auto
  have "distinct (if y \<in> set acc then acc else acc @ [y])"
    using Cons.prems(2) by simp
  then have "\<exists>ds. collect_dates ps (if y \<in> set acc then acc else acc @ [y]) = Inr ds
                  \<and> distinct ds"
    using Cons.prems(1) by (intro Cons.IH) simp_all
  then show ?case by (simp add: sp)
qed

lemma date_folders_total:
  "\<exists>dates. date_folders names device_id = Inr dates \<and> distinct dates"
proof -
  have "\<forall>p \<in> set (sub_prefixes names (device_id @ ''/'')).
          \<exists>x y zs. split_on CHR ''/'' p = x # y # zs"
  proof
    fix p assume "p \<in> set (sub_prefixes names (device_id @ ''/''))"
    then obtain rest where "p = (device_id @ ''/'') @ rest"
      by (auto simp: sub_prefixes_def)
    then have "p = device_id @ CHR ''/'' # rest" by simp
    then show "\<exists>x y zs. split_on CHR ''/'' p = x # y # zs"
      using split_on_two by metis
  qed
  then show ?thesis
    using collect_dates_total [of "sub_prefixes names (device_id @ ''/'')" "[]"]
    by (simp add: date_folders_def list_blobs_delimiter_def)
qed

lemma scan_devices_entries:
  assumes "distinct devices"
  shows "\<exists>st'. scan_devices env processed devices st = (None, st')
     \<and> (\<forall>d t. manifest_entry (manifest_blob st') d t =
           (if d \<in> set devices \<and> t \<in> set (dates_of (objects env) d)
                \<and> \<not> already_completed processed d t \<and> is_candidate (objects env) d t
            then folder_entry (run_of env d t)
            else manifest_entry (manifest_blob st) d t))
     \<and> export_calls st' = export_calls st
          @ concat (map (\<lambda>d. map (Pair d)
              (filter (\<lambda>t. \<not> already_completed processed d t
                             \<and> is_candidate (objects env) d t) (dates_of (objects env) d)))
              devices)"
  using assms
proof (induction devices arbitrary: st)
  case Nil
  show ?case by simp
next
  case (Cons dev devs)
  have fresh: "dev \<notin> set devs" and rest: "distinct devs"
    using Cons.prems by simp_all
  obtain dates where df: "date_folders (objects env) dev = Inr dates" and dd: "distinct dates"
    using date_folders_total by blast
  have dof: "dates_of (objects env) dev = dates"
    by (simp add: dates_of_def df)
  obtain st1 where s1: "scan_dates env processed dev dates st = (None, st1)"
    and e1: "\<forall>d t. manifest_entry (manifest_blob st1) d t =
           (if d = dev \<and> t \<in> set dates \<and> \<not> already_completed processed dev t
                \<and> is_candidate (objects env) dev t
            then folder_entry (run_of env dev t)
            else manifest_entry (manifest_blob st) d t)"
    and c1: "export_calls st1 = export_calls st
          @ map (Pair dev)
              (filter (\<lambda>t. \<not> already_completed processed dev t
                             \<and> is_candidate (objects env) dev t) dates)"
    using scan_dates_entries [OF dd, of env processed dev st] by blast
  obtain st' where s2: "scan_devices env processed devs st1 = (None, st')"
    and e2: "\<forall>d t. manifest_entry (manifest_blob st') d t =
           (if d \<in> set devs \<and> t \<in> set (dates_of (objects env) d)
                \<and> \<not> already_completed processed d t \<and> is_candidate (objects env) d t
            then folder_entry (run_of env d t)
            else manifest_entry (manifest_blob st1) d t)"
    and c2: "export_calls st' = export_calls st1
          @ concat (map (\<lambda>d. map (Pair d)
              (filter (\<lambda>t. \<not> already_completed processed d t
                             \<and> is_candidate (objects env) d t) (dates_of (objects env) d)))
              devs)"
    using Cons.IH [OF rest, of st1] by blast
  have run: "scan_devices env processed (dev # devs) st = (None, st')"
    by (simp add: df s1 s2)
  have "\<forall>d t. manifest_entry (manifest_blob st') d t =
           (if d \<in> set (dev # devs) \<and> t \<in> set (dates_of (objects env) d)
                \<and> \<not> already_completed processed d t \<and> is_candidate (objects env) d t
            then folder_entry (run_of env d t)
            else manifest_entry (manifest_blob st) d t)"
    using e1 e2 fresh dof by auto
  moreover have "export_calls st' = export_calls st
          @ concat (map (\<lambda>d. map (Pair d)
              (filter (\<lambda>t. \<not> already_completed processed d t
                             \<and> is_candidate (objects env) d t) (dates_of (objects env) d)))
              (dev # devs))"
    using c1 c2 dof by simp
  ultimately show ?case using run by blast
qed

lemma folder_exists_direct: "folder_exists names pre = (direct_blobs names pre \<noteq> [])"
  by (cases "direct_blobs names pre")
     (simp_all add: folder_exists_def iterate_def list_blobs_delimiter_def Let_def)

lemma process_candidate_modes:
  assumes "process_candidate run = Inr (m, r, e)"
  shows "(export_result run = Export_returns False \<longrightarrow> m = ''export_failed'')
       \<and> (\<forall>k err later. export_result run = Export_returns True
              \<and> zip_polls run = replicate k Zip_absent @ Zip_present (Zip_raises err) # later
            \<longrightarrow> m = ''failed_zip_processing'')
       \<and> (\<forall>k. export_result run = Export_returns True
              \<and> zip_polls run = replicate k Zip_absent
            \<longrightarrow> m = ''timeout_waiting_for_zip'')
       \<and> (\<forall>err. export_result run = Export_raises err \<longrightarrow> m = ''error'')
       \<and> (\<forall>k err later. export_result run = Export_returns True
              \<and> zip_polls run = replicate k Zip_absent @ Exists_raises err # later
            \<longrightarrow> m = ''error'')
       \<and> (\<forall>k later. export_result run = Export_returns True
              \<and> zip_polls run = replicate k Zip_absent @ Zip_present Zip_processed # later
            \<longrightarrow> m = ''completed'')"
proof (intro conjI allI impI)
  show "m = ''export_failed''" if "export_result run = Export_returns False"
    using assms that by (simp add: process_candidate_def try_export_def)
  show "m = ''failed_zip_processing''"
    if "export_result run = Export_returns True
        \<and> zip_polls run = replicate k Zip_absent @ Zip_present (Zip_raises err) # later"
    for k err later
    using assms that
    by (simp add: process_candidate_def try_export_def wait_for_zip_absent is_Exception_all)
  show "m = ''timeout_waiting_for_zip''"
    if "export_result run = Export_returns True \<and> zip_polls run = replicate k Zip_absent"
    for k
    using assms that wait_for_zip_absent [of k "[]"]
    by (simp add: process_candidate_def try_export_def)
  show "m = ''error''" if "export_result run = Export_raises err" for err
    using assms that by (simp add: process_candidate_def try_export_def is_Exception_all)
  show "m = ''error''"
    if "export_result run = Export_returns True
        \<and> zip_polls run = replicate k Zip_absent @ Exists_raises err # later"
    for k err later
    using assms that
    by (simp add: process_candidate_def try_export_def wait_for_zip_absent is_Exception_all)
  show "m = ''completed''"
    if "export_result run = Export_returns True
        \<and> zip_polls run = replicate k Zip_absent @ Zip_present Zip_processed # later"
    for k later
    using assms that
    by (simp add: process_candidate_def try_export_def wait_for_zip_absent)
qed

lemma cvat_download_run:
  "\<exists>st. cvat_download env stored = (Completed (results st), st)
     \<and> (\<forall>d t. manifest_entry (manifest_blob st) d t =
           (if d \<in> set [''1'', ''2'', ''3''] \<and> t \<in> set (dates_of (objects env) d)
                \<and> \<not> already_completed (fst (load_processed_manifest stored)) d t
                \<and> is_candidate (objects env) d t
            then folder_entry (run_of env d t)
            else manifest_entry (snd (load_processed_manifest stored)) d t))
     \<and> export_calls st =
          concat (map (\<lambda>d. map (Pair d)
              (filter (\<lambda>t. \<not> already_completed (fst (load_processed_manifest stored)) d t
                             \<and> is_candidate (objects env) d t) (dates_of (objects env) d)))
              [''1'', ''2'', ''3''])"
proof -
  let ?processed = "fst (load_processed_manifest stored)"
  let ?init = "\<lparr>manifest_blob = snd (load_processed_manifest stored), results = [],
                export_calls = []\<rparr>"
  have "distinct [''1'', ''2'', ''3'']" by simp
  from scan_devices_entries [OF this, of env ?processed ?init]
  obtain st where run: "scan_devices env ?processed [''1'', ''2'', ''3''] ?init = (None, st)"
    and entries: "\<forall>d t. manifest_entry (manifest_blob st) d t =
           (if d \<in> set [''1'', ''2'', ''3''] \<and> t \<in> set (dates_of (objects env) d)
                \<and> \<not> already_completed ?processed d t \<and> is_candidate (objects env) d t
            then folder_entry (run_of env d t)
            else manifest_entry (manifest_blob ?init) d t)"
    and calls: "export_calls st = export_calls ?init
          @ concat (map (\<lambda>d. map (Pair d)
              (filter (\<lambda>t. \<not> already_completed ?processed d t
                             \<and> is_candidate (objects env) d t) (dates_of (objects env) d)))
              [''1'', ''2'', ''3''])"
    by blast
  have "cvat_download env stored = (Completed (results st), st)"
    by (simp add: cvat_download_def Let_def split_beta run del: scan_devices.simps)
  then show ?thesis using entries calls by auto
qed

text \<open>
  C8. For every candidate folder that the manifest does not mark completed, whatever
  happens at the other folders, \<open>cvat_download\<close> runs to its end (it answers with the list
  of processed items, not with the error response) and leaves for the folder a manifest
  entry whose status tells the outcome: \<open>export_failed\<close> when the export was rejected,
  \<open>failed_zip_processing\<close> when unpacking the archive raised, \<open>timeout_waiting_for_zip\<close>
  when the wait ran out, \<open>error\<close> when the export call or the look for the archive raised,
  and \<open>completed\<close> on success. The five statuses are pairwise different.
\<close>

theorem cvat_download_failure_statuses:
  assumes "device_id \<in> set [''1'', ''2'', ''3'']"
    and "date \<in> set (dates_of (objects env) device_id)"
    and "\<not> already_completed (fst (load_processed_manifest stored)) device_id date"
    and "is_candidate (objects env) device_id date"
  shows "\<exists>st m. cvat_download env stored = (Completed (results st), st)
       \<and> manifest_entry (manifest_blob st) device_id date
           = Some \<lparr>status = m, processed_at = write_time (run_of env device_id date)\<rparr>
       \<and> (export_result (run_of env device_id date) = Export_returns False
            \<longrightarrow> m = ''export_failed'')
       \<and> (\<forall>k err later. export_result (run_of env device_id date) = Export_returns True
              \<and> zip_polls (run_of env device_id date)
                  = replicate k Zip_absent @ Zip_present (Zip_raises err) # later
            \<longrightarrow> m = ''failed_zip_processing'')
       \<and> (\<forall>k. export_result (run_of env device_id date) = Export_returns True
              \<and> zip_polls (run_of env device_id date) = replicate k Zip_absent
            \<longrightarrow> m = ''timeout_waiting_for_zip'')
       \<and> (\<forall>err. export_result (run_of env device_id date) = Export_raises err
            \<longrightarrow> m = ''error'')
       \<and> (\<forall>k err later. export_result (run_of env device_id date) = Export_returns True
              \<and> zip_polls (run_of env device_id date)
                  = replicate k Zip_absent @ Exists_raises err # later
            \<longrightarrow> m = ''error'')
       \<and> (\<forall>k later. export_result (run_of env device_id date) = Export_returns True
              \<and> zip_polls (run_of env device_id date)
                  = replicate k Zip_absent @ Zip_present Zip_processed # later
            \<longrightarrow> m = ''completed'')
       \<and> distinct [''completed'', ''export_failed'', ''failed_zip_processing'',
                    ''timeout_waiting_for_zip'', ''error'']"
proof -
  obtain st where run: "cvat_download env stored = (Completed (results st), st)"
    and entries: "\<forall>d t. manifest_entry (manifest_blob st) d t =
           (if d \<in> set [''1'', ''2'', ''3''] \<and> t \<in> set (dates_of (objects env) d)
                \<and> \<not> already_completed (fst (load_processed_manifest stored)) d t
                \<and> is_candidate (objects env) d t
            then folder_entry (run_of env d t)
            else manifest_entry (snd (load_processed_manifest stored)) d t)"
    using cvat_download_run [of env stored] by blast
  obtain m r e where pc: "process_candidate (run_of env device_id date) = Inr (m, r, e)"
    using process_candidate_total by blast
  have "manifest_entry (manifest_blob st) device_id date
        = folder_entry (run_of env device_id date)"
    using entries assms by simp
  then have entry: "manifest_entry (manifest_blob st) device_id date
        = Some \<lparr>status = m, processed_at = write_time (run_of env device_id date)\<rparr>"
    by (simp add: folder_entry_def pc)
  have names: "distinct [''completed'', ''export_failed'', ''failed_zip_processing'',
                    ''timeout_waiting_for_zip'', ''error'']"
    by simp
  note modes = process_candidate_modes [OF pc]
  show ?thesis
    by (insert run entry modes names, intro exI [of _ st] exI [of _ m] conjI)
       (assumption | blast)+
qed

lemma review_env_candidates:
  "''2025-1-4'' \<in> set (dates_of (objects review_env) ''1'')
   \<and> is_candidate (objects review_env) ''1'' ''2025-1-4''
   \<and> ''2025-1-4'' \<in> set (dates_of (objects review_env) ''2'')
   \<and> is_candidate (objects review_env) ''2'' ''2025-1-4''
   \<and> ''2025-1-5'' \<in> set (dates_of (objects review_env) ''2'')
   \<and> is_candidate (objects review_env) ''2'' ''2025-1-5''
   \<and> ''2025-1-4'' \<in> set (dates_of (objects review_env) ''3'')
   \<and> is_candidate (objects review_env) ''3'' ''2025-1-4''
   \<and> ''2025-1-5'' \<in> set (dates_of (objects review_env) ''3'')
   \<and> is_candidate (objects review_env) ''3'' ''2025-1-5''"
  by code_simp

lemma nothing_completed: "\<not> already_completed (fst (load_processed_manifest None)) d t"
  by (simp add: load_processed_manifest_def already_completed_def)

theorem cvat_download_failure_statuses_witness:
  "''2025-1-4'' \<in> set (dates_of (objects review_env) ''1'')
   \<and> is_candidate (objects review_env) ''1'' ''2025-1-4''
   \<and> status_of (cvat_download review_env None) ''1'' ''2025-1-4'' = Some ''export_failed''
   \<and> status_of (cvat_download review_env None) ''2'' ''2025-1-4''
       = Some ''failed_zip_processing''
   \<and> status_of (cvat_download review_env None) ''2'' ''2025-1-5''
       = Some ''timeout_waiting_for_zip''
   \<and> status_of (cvat_download review_env None) ''3'' ''2025-1-4'' = Some ''error''
   \<and> status_of (cvat_download review_env None) ''3'' ''2025-1-5'' = Some ''completed''
   \<and> (\<exists>items. fst (cvat_download review_env None) = Completed items)"
proof -
  note cand = review_env_candidates
  have runs: "run_of review_env ''1'' ''2025-1-4'' = rejected_run"
    "run_of review_env ''2'' ''2025-1-4'' = broken_zip_run"
    "run_of review_env ''2'' ''2025-1-5'' = late_run"
    "run_of review_env ''3'' ''2025-1-4'' = raising_run"
    "run_of review_env ''3'' ''2025-1-5'' = good_run"
    by (simp_all add: review_env_def)
  have rejected: "export_result rejected_run = Export_returns False"
    by (simp add: rejected_run_def)
  have broken: "export_result broken_zip_run = Export_returns True
      \<and> zip_polls broken_zip_run
          = replicate 1 Zip_absent @ Zip_present (Zip_raises (Exception ''bad zip'')) # []"
    by (simp add: broken_zip_run_def)
  have late: "export_result late_run = Export_returns True
      \<and> zip_polls late_run = replicate 30 Zip_absent"
    by (simp add: late_run_def)
  have raising: "export_result raising_run = Export_raises (TypeError ''unexpected'')"
    by (simp add: raising_run_def)
  have good: "export_result good_run = Export_returns True
      \<and> zip_polls good_run = replicate 2 Zip_absent @ Zip_present Zip_processed # []"
    by (simp add: good_run_def numeral_2_eq_2)
  have a: "status_of (cvat_download review_env None) ''1'' ''2025-1-4'' = Some ''export_failed''"
    and finished: "\<exists>items. fst (cvat_download review_env None) = Completed items"
  proof -
    obtain st m where "cvat_download review_env None = (Completed (results st), st)"
      and "manifest_entry (manifest_blob st) ''1'' ''2025-1-4''
           = Some \<lparr>status = m, processed_at = write_time rejected_run\<rparr>"
      and "export_result rejected_run = Export_returns False \<longrightarrow> m = ''export_failed''"
      using cvat_download_failure_statuses [of "''1''" "''2025-1-4''" review_env None]
        cand nothing_completed unfolding runs by auto
    then show "status_of (cvat_download review_env None) ''1'' ''2025-1-4''
               = Some ''export_failed''"
      and "\<exists>items. fst (cvat_download review_env None) = Completed items"
      using rejected by (simp_all add: status_of_def)
  qed
  have b: "status_of (cvat_download review_env None) ''2'' ''2025-1-4''
           = Some ''failed_zip_processing''"
  proof -
    obtain st m where "cvat_download review_env None = (Completed (results st), st)"
      and "manifest_entry (manifest_blob st) ''2'' ''2025-1-4''
           = Some \<lparr>status = m, processed_at = write_time broken_zip_run\<rparr>"
      and "\<forall>k err later. export_result broken_zip_run = Export_returns True
              \<and> zip_polls broken_zip_run
                  = replicate k Zip_absent @ Zip_present (Zip_raises err) # later
            \<longrightarrow> m = ''failed_zip_processing''"
      using cvat_download_failure_statuses [of "''2''" "''2025-1-4''" review_env None]
        cand nothing_completed unfolding runs by auto
    moreover from this(3) broken have "m = ''failed_zip_processing''" by blast
    ultimately show ?thesis by (simp add: status_of_def)
  qed
  have c: "status_of (cvat_download review_env None) ''2'' ''2025-1-5''
           = Some ''timeout_waiting_for_zip''"
  proof -
    obtain st m where "cvat_download review_env None = (Completed (results st), st)"
      and "manifest_entry (manifest_blob st) ''2'' ''2025-1-5''
           = Some \<lparr>status = m, processed_at = write_time late_run\<rparr>"
      and "\<forall>k. export_result late_run = Export_returns True
              \<and> zip_polls late_run = replicate k Zip_absent
            \<longrightarrow> m = ''timeout_waiting_for_zip''"
      using cvat_download_failure_statuses [of "''2''" "''2025-1-5''" review_env None]
        cand nothing_completed unfolding runs by auto
    moreover from this(3) late have "m = ''timeout_waiting_for_zip''" by blast
    ultimately show ?thesis by (simp add: status_of_def)
  qed
  have d: "status_of (cvat_download review_env None) ''3'' ''2025-1-4'' = Some ''error''"
  proof -
    obtain st m where "cvat_download review_env None = (Completed (results st), st)"
      and "manifest_entry (manifest_blob st) ''3'' ''2025-1-4''
           = Some \<lparr>status = m, processed_at = write_time raising_run\<rparr>"
      and "\<forall>err. export_result raising_run = Export_raises err \<longrightarrow> m = ''error''"
      using cvat_download_failure_statuses [of "''3''" "''2025-1-4''" review_env None]
        cand nothing_completed unfolding runs by auto
    moreover from this(3) raising have "m = ''error''" by blast
    ultimately show ?thesis by (simp add: status_of_def)
  qed
  have e: "status_of (cvat_download review_env None) ''3'' ''2025-1-5'' = Some ''completed''"
  proof -
    obtain st m where "cvat_download review_env None = (Completed (results st), st)"
      and "manifest_entry (manifest_blob st) ''3'' ''2025-1-5''
           = Some \<lparr>status = m, processed_at = write_time good_run\<rparr>"
      and "\<forall>k later. export_result good_run = Export_returns True
              \<and> zip_polls good_run = replicate k Zip_absent @ Zip_present Zip_processed # later
            \<longrightarrow> m = ''completed''"
      using cvat_download_failure_statuses [of "''3''" "''2025-1-5''" review_env None]
        cand nothing_completed unfolding runs by auto
    moreover from this(3) good have "m = ''completed''" by blast
    ultimately show ?thesis by (simp add: status_of_def)
  qed
  show ?thesis using cand a b c d e finished by blast
qed

text \<open>
  C4 fails on a bucket where \<open>annotations/\<close> holds its objects in a subfolder: the listing of
  \<open>1/2025-1-4/annotations/\<close> is not empty, yet \<open>folder_exists\<close> answers \<open>False\<close> for it,
  since no object lies directly under the prefix and the prefixes are read from an iterator
  that has fetched no page. The folder, with \<open>auto-annotations/\<close> and \<open>annotations/\<close> both
  present, is selected, exported and marked completed.
\<close>

theorem annotated_folder_selected:
  "list_blobs (objects nested_env) ''1/2025-1-4/annotations/'' None
     = [''1/2025-1-4/annotations/coco/instances_default.json'']
   \<and> list_blobs (objects nested_env) ''1/2025-1-4/auto-annotations/'' None
     = [''1/2025-1-4/auto-annotations/a.txt'']
   \<and> folder_exists (objects nested_env) ''1/2025-1-4/annotations/'' = False
   \<and> export_calls (snd (cvat_download nested_env None)) = [(''1'', ''2025-1-4'')]
   \<and> manifest_entry (manifest_blob (snd (cvat_download nested_env None))) ''1'' ''2025-1-4''
     = Some \<lparr>status = ''completed'', processed_at = ''2025-01-05 06:09:00''\<rparr>"
  by code_simp

end
